theory Spec2Isabelle
  imports Main "HOL-Library.Word"
begin

section \<open>Data model of the Datastore messages\<close>

text \<open>
  The protobuf messages the interceptors read and write, reduced to the fields the code
  touches. A Go byte slice is a list of bytes; a slice that may be \<open>nil\<close> and is
  compared with \<open>nil\<close> by the code is an \<open>option\<close>, \<open>None\<close> being \<open>nil\<close> and
  \<open>Some []\<close> the empty slice that is not \<open>nil\<close>: the transaction identifier, a slot
  the cacher returns, the \<open>Found\<close> of a Lookup reply and the \<open>Projection\<close> of a query.
  A slice the code only measures and ranges over is a list.
  A \<open>nil\<close> \<open>*Key\<close> behaves under the generated getters as the empty key, so keys are
  plain values.
\<close>

type_synonym bytes = "8 word list"

datatype IdType = IdNone | Id "64 word" | Name string

record PathElement =
  Kind :: string
  IdType :: IdType

record PartitionId =
  ProjectId :: string
  NamespaceId :: string

record Key =
  PartitionId :: "PartitionId option"
  Path :: "PathElement list"

text \<open>The elements of a slice that may be \<open>nil\<close>, for \<open>len\<close> and \<open>range\<close>.\<close>

definition elems :: "'a list option \<Rightarrow> 'a list" where
  "elems xs = (case xs of None \<Rightarrow> [] | Some ys \<Rightarrow> ys)"

definition GetNamespaceId :: "PartitionId option \<Rightarrow> string" where
  "GetNamespaceId p = (case p of None \<Rightarrow> [] | Some x \<Rightarrow> NamespaceId x)"

section \<open>The canonical key string (memory, aememcache and redis backends)\<close>

text \<open>
  \<open>strconv.FormatInt(i, 10)\<close>: the decimal digits of the magnitude, most significant
  first, after a minus sign when the number is negative.
\<close>

definition digit :: "nat \<Rightarrow> char" where
  "digit d = ''0123456789'' ! d"

function decimal :: "nat \<Rightarrow> string" where
  "decimal n = (if n < 10 then [digit n] else decimal (n div 10) @ [digit (n mod 10)])"
  by pat_completeness auto
termination
  by (relation "measure (\<lambda>n. n)") auto

declare decimal.simps [simp del]

definition FormatInt :: "int \<Rightarrow> string" where
  "FormatInt i = (if i < 0 then CHR ''-'' # decimal (nat (- i)) else decimal (nat i))"

text \<open>
  What \<open>keystr\<close> appends after the kind of a path element: nothing for an element
  without id type, the decimal id, or the quoted name. \<open>strconv.Quote\<close> belongs to
  the Go library and is the parameter \<open>quote\<close>.
\<close>

fun idstr :: "(string \<Rightarrow> string) \<Rightarrow> IdType \<Rightarrow> string list" where
  "idstr quote IdNone = []"
| "idstr quote (Id i) = [FormatInt (sint i)]"
| "idstr quote (Name n) = [quote n]"

definition nsstr :: "Key \<Rightarrow> string" where
  "nsstr key = (let ns = GetNamespaceId (PartitionId key) in
                 if ns \<noteq> [] then ns else ''[default]'')"

text \<open>
  \<open>keystr\<close> of cache/memory and cache/aememcache: a string builder that receives the
  namespace and then, for each path element, its kind and its id string, with nothing
  in between.
\<close>

fun write_path :: "(string \<Rightarrow> string) \<Rightarrow> string \<Rightarrow> PathElement list \<Rightarrow> string" where
  "write_path quote b [] = b"
| "write_path quote b (p # ps) =
     write_path quote (b @ Kind p @ concat (idstr quote (IdType p))) ps"

definition keystr :: "(string \<Rightarrow> string) \<Rightarrow> Key \<Rightarrow> string" where
  "keystr quote key = write_path quote (nsstr key) (Path key)"

text \<open>
  \<open>keystr\<close> of cache/redis: the same pieces collected in a slice and joined
  with a slash.
\<close>

fun Join :: "string list \<Rightarrow> string \<Rightarrow> string" where
  "Join [] sep = []"
| "Join [x] sep = x"
| "Join (x # y # ys) sep = x @ sep @ Join (y # ys) sep"

fun append_path :: "(string \<Rightarrow> string) \<Rightarrow> string list \<Rightarrow> PathElement list \<Rightarrow> string list" where
  "append_path quote s [] = s"
| "append_path quote s (p # ps) =
     append_path quote (s @ [Kind p] @ idstr quote (IdType p)) ps"

definition redis_keystr :: "(string \<Rightarrow> string) \<Rightarrow> Key \<Rightarrow> string" where
  "redis_keystr quote key = Join (append_path quote [nsstr key] (Path key)) ''/''"

text \<open>Two keys are the same key when namespace and path agree.\<close>

definition same_key :: "Key \<Rightarrow> Key \<Rightarrow> bool" where
  "same_key k1 k2 \<longleftrightarrow>
     GetNamespaceId (PartitionId k1) = GetNamespaceId (PartitionId k2) \<and> Path k1 = Path k2"

section \<open>Requests, replies and the collaborators of the interceptors\<close>

datatype ConsistencyType = NoConsistency | ReadConsistency nat | Transaction "bytes option"

record ReadOptions =
  ConsistencyType :: ConsistencyType

text \<open>\<open>in.GetReadOptions().GetTransaction()\<close>: the transaction identifier, \<open>nil\<close>
  when there are no read options or they select no transaction.\<close>

definition GetTransaction :: "ReadOptions option \<Rightarrow> bytes option" where
  "GetTransaction ro =
     (case ro of None \<Rightarrow> None
      | Some x \<Rightarrow> (case ConsistencyType x of Transaction t \<Rightarrow> t | _ \<Rightarrow> None))"

record Entity =
  Key :: Key
  Properties :: "(string \<times> string) list"

record EntityResult =
  Entity :: "Entity option"
  Version :: nat

record LookupRequest =
  LookupProjectId :: string
  LookupReadOptions :: "ReadOptions option"
  Keys :: "Key list"

record LookupResponse =
  Found :: "EntityResult list option"
  Missing :: "EntityResult list"
  Deferred :: "Key list"

datatype Mutation =
  NoOperation
  | Insert "Entity option"
  | Update "Entity option"
  | Upsert "Entity option"
  | Delete Key

datatype CommitMode = MODE_UNSPECIFIED | TRANSACTIONAL | NON_TRANSACTIONAL

record CommitRequest =
  CommitProjectId :: string
  Mode :: CommitMode
  TransactionSelector :: "bytes option"
  Mutations :: "Mutation list"

record CommitResponse =
  IndexUpdates :: nat

record Query =
  Projection :: "string list option"
  QueryKind :: "string list"
  Limit :: "nat option"
  Offset :: nat

datatype QueryType = NoQueryType | StructuredQuery Query | GqlQuery string

record RunQueryRequest =
  QueryProjectId :: string
  QueryReadOptions :: "ReadOptions option"
  QueryType :: QueryType

datatype ResultType = RESULT_TYPE_UNSPECIFIED | FULL | PROJECTION | KEY_ONLY

record QueryResultBatch =
  EntityResultType :: ResultType
  EntityResults :: "EntityResult list"

record RunQueryResponse =
  Batch :: "QueryResultBatch option"

text \<open>The \<open>interface{}\<close> arguments \<open>req\<close> and \<open>reply\<close> with their dynamic type.\<close>

datatype Request =
  LookupReq LookupRequest
  | CommitReq CommitRequest
  | RunQueryReq RunQueryRequest
  | OtherReq bytes

datatype Reply =
  LookupRep LookupResponse
  | CommitRep CommitResponse
  | RunQueryRep RunQueryResponse
  | OtherRep bytes

datatype error = Error string

text \<open>How a call of an interceptor ends: it returns its \<open>error\<close> value (\<open>nil\<close> is
  \<open>None\<close>) or it panics.\<close>

datatype outcome = Return "error option" | Panic

text \<open>
  The \<open>Cacher\<close> interface over a cache state \<open>'c\<close>, the invoker over a state \<open>'r\<close> of
  the remote side, and the two functions of the protobuf library the interceptor calls.
  An invoker fills the reply object it is given and leaves the request alone, so the
  reply it returns has the dynamic type of the reply it received; the branches below for
  a reply of another type after a call exist to make the functions total.
\<close>

record 'c Cacher =
  GetMulti :: "'c \<Rightarrow> Key list \<Rightarrow> bytes option list \<times> 'c"
  SetMulti :: "'c \<Rightarrow> Key list \<Rightarrow> bytes list \<Rightarrow> 'c"
  DeleteMulti :: "'c \<Rightarrow> Key list \<Rightarrow> error option \<times> 'c"

type_synonym 'r Invoker = "'r \<Rightarrow> string \<Rightarrow> Request \<Rightarrow> Reply \<Rightarrow> error option \<times> Reply \<times> 'r"

record Proto =
  Unmarshal :: "bytes \<Rightarrow> EntityResult option"
  Marshal :: "EntityResult \<Rightarrow> bytes option"

text \<open>Every call that leaves the interceptor is appended to a log.\<close>

datatype Event =
  CallGetMulti "Key list"
  | CallSetMulti "Key list" "bytes list"
  | CallDeleteMulti "Key list"
  | CallInvoker string Request

record ('c, 'r) World =
  Cache :: 'c
  Remote :: 'r
  Calls :: "Event list"

definition call_GetMulti ::
  "'c Cacher \<Rightarrow> Key list \<Rightarrow> ('c, 'r) World \<Rightarrow> bytes option list \<times> ('c, 'r) World" where
  "call_GetMulti cacher keys w =
     (case GetMulti cacher (Cache w) keys of
        (vs, c) \<Rightarrow> (vs, w\<lparr>Cache := c, Calls := Calls w @ [CallGetMulti keys]\<rparr>))"

definition call_SetMulti ::
  "'c Cacher \<Rightarrow> Key list \<Rightarrow> bytes list \<Rightarrow> ('c, 'r) World \<Rightarrow> ('c, 'r) World" where
  "call_SetMulti cacher keys vals w =
     w\<lparr>Cache := SetMulti cacher (Cache w) keys vals,
       Calls := Calls w @ [CallSetMulti keys vals]\<rparr>"

definition call_DeleteMulti ::
  "'c Cacher \<Rightarrow> Key list \<Rightarrow> ('c, 'r) World \<Rightarrow> error option \<times> ('c, 'r) World" where
  "call_DeleteMulti cacher keys w =
     (case DeleteMulti cacher (Cache w) keys of
        (e, c) \<Rightarrow> (e, w\<lparr>Cache := c, Calls := Calls w @ [CallDeleteMulti keys]\<rparr>))"

definition call_invoker ::
  "'r Invoker \<Rightarrow> string \<Rightarrow> Request \<Rightarrow> Reply \<Rightarrow> ('c, 'r) World
     \<Rightarrow> error option \<times> Reply \<times> ('c, 'r) World" where
  "call_invoker invoker method req reply w =
     (case invoker (Remote w) method req reply of
        (e, reply', r) \<Rightarrow>
          (e, reply', w\<lparr>Remote := r, Calls := Calls w @ [CallInvoker method req]\<rparr>))"

text \<open>\<open>return invoker(ctx, method, req, reply, cc, opts...)\<close>\<close>

definition forward ::
  "'r Invoker \<Rightarrow> string \<Rightarrow> Request \<Rightarrow> Reply \<Rightarrow> ('c, 'r) World
     \<Rightarrow> outcome \<times> Request \<times> Reply \<times> ('c, 'r) World" where
  "forward invoker method req reply w =
     (case call_invoker invoker method req reply w of
        (e, reply', w') \<Rightarrow> (Return e, req, reply', w'))"

definition method_Lookup :: string where
  "method_Lookup = ''/google.datastore.v1.Datastore/Lookup''"

definition method_Commit :: string where
  "method_Commit = ''/google.datastore.v1.Datastore/Commit''"

definition method_RunQuery :: string where
  "method_RunQuery = ''/google.datastore.v1.Datastore/RunQuery''"

section \<open>The caching interceptor (cache.UnaryClientInterceptor)\<close>

text \<open>
  The loop over the slots the cacher returned. A \<open>nil\<close> slot and a slot that does not
  unmarshal put \<open>keys[i]\<close> on the missing list, which panics when the cacher returned
  more slots than there are keys (\<open>None\<close>); any other slot adds its entity result to
  the found list.
\<close>

fun scan_cached ::
  "(bytes \<Rightarrow> EntityResult option) \<Rightarrow> Key list \<Rightarrow> nat \<Rightarrow> bytes option list
     \<Rightarrow> EntityResult list \<Rightarrow> Key list \<Rightarrow> (EntityResult list \<times> Key list) option" where
  "scan_cached unmarshal keys i [] found missing = Some (found, missing)"
| "scan_cached unmarshal keys i (v # vs) found missing =
     (case v of
        None \<Rightarrow>
          if i < length keys
          then scan_cached unmarshal keys (Suc i) vs found (missing @ [keys ! i])
          else None
      | Some b \<Rightarrow>
          (case unmarshal b of
             None \<Rightarrow>
               if i < length keys
               then scan_cached unmarshal keys (Suc i) vs found (missing @ [keys ! i])
               else None
           | Some e \<Rightarrow> scan_cached unmarshal keys (Suc i) vs (found @ [e]) missing))"

text \<open>
  The loop that collects what is saved in the cache: an entity result that does not
  marshal is skipped, and \<open>v.Entity.Key\<close> panics on a result without entity.
\<close>

fun save_cache ::
  "(EntityResult \<Rightarrow> bytes option) \<Rightarrow> EntityResult list \<Rightarrow> Key list \<Rightarrow> bytes list
     \<Rightarrow> (Key list \<times> bytes list) option" where
  "save_cache marshal [] skeys vals = Some (skeys, vals)"
| "save_cache marshal (v # vs) skeys vals =
     (case marshal v of
        None \<Rightarrow> save_cache marshal vs skeys vals
      | Some b \<Rightarrow>
          (case Entity v of
             None \<Rightarrow> None
           | Some e \<Rightarrow> save_cache marshal vs (skeys @ [Key e]) (vals @ [b])))"

text \<open>
  The loop over the mutations of a commit: \<open>op.Update.Key\<close> and \<open>op.Upsert.Key\<close>
  panic on a mutation without entity.
\<close>

fun mutation_keys :: "Mutation list \<Rightarrow> Key list \<Rightarrow> Key list option" where
  "mutation_keys [] keys = Some keys"
| "mutation_keys (Update None # ms) keys = None"
| "mutation_keys (Update (Some e) # ms) keys = mutation_keys ms (keys @ [Key e])"
| "mutation_keys (Upsert None # ms) keys = None"
| "mutation_keys (Upsert (Some e) # ms) keys = mutation_keys ms (keys @ [Key e])"
| "mutation_keys (Delete k # ms) keys = mutation_keys ms (keys @ [k])"
| "mutation_keys (Insert e # ms) keys = mutation_keys ms keys"
| "mutation_keys (NoOperation # ms) keys = mutation_keys ms keys"

definition lookup_case ::
  "'c Cacher \<Rightarrow> Proto \<Rightarrow> 'r Invoker \<Rightarrow> string \<Rightarrow> Request \<Rightarrow> Reply \<Rightarrow> ('c, 'r) World
     \<Rightarrow> outcome \<times> Request \<times> Reply \<times> ('c, 'r) World" where
  "lookup_case cacher proto invoker method req reply w =
     (case req of
        LookupReq in' \<Rightarrow>
          if GetTransaction (LookupReadOptions in') \<noteq> None
          then forward invoker method req reply w
          else
            (case reply of
               LookupRep out \<Rightarrow>
                 (let keys = Keys in' in
                  case call_GetMulti cacher keys w of
                    (cached, w1) \<Rightarrow>
                      (case scan_cached (Unmarshal proto) keys 0 cached [] [] of
                         None \<Rightarrow> (Panic, req, reply, w1)
                       | Some (found, missing0) \<Rightarrow>
                           if length keys = length found
                           then (Return None, req, LookupRep (out\<lparr>Found := Some found\<rparr>), w1)
                           else
                             (let missing = (if length cached = 0 then keys else missing0);
                                  sent = LookupReq (in'\<lparr>Keys := missing\<rparr>)
                              in case call_invoker invoker method sent reply w1 of
                                   (Some err, reply', w2) \<Rightarrow> (Return (Some err), sent, reply', w2)
                                 | (None, reply', w2) \<Rightarrow>
                                     (case reply' of
                                        LookupRep out' \<Rightarrow>
                                          (case Found out' of
                                             None \<Rightarrow>
                                               (Return None, req,
                                                LookupRep (out'\<lparr>Found := Some found\<rparr>), w2)
                                           | Some got \<Rightarrow>
                                               (let merged =
                                                      LookupRep (out'\<lparr>Found := Some (got @ found)\<rparr>)
                                                in case save_cache (Marshal proto) got [] [] of
                                                     None \<Rightarrow> (Panic, req, merged, w2)
                                                   | Some (skeys, vals) \<Rightarrow>
                                                       (Return None, req, merged,
                                                        call_SetMulti cacher skeys vals w2)))
                                      | _ \<Rightarrow> (Panic, req, reply', w2)))))
             | _ \<Rightarrow> (Panic, req, reply, w))
      | _ \<Rightarrow> (Panic, req, reply, w))"

definition commit_case ::
  "'c Cacher \<Rightarrow> 'r Invoker \<Rightarrow> string \<Rightarrow> Request \<Rightarrow> Reply \<Rightarrow> ('c, 'r) World
     \<Rightarrow> outcome \<times> Request \<times> Reply \<times> ('c, 'r) World" where
  "commit_case cacher invoker method req reply w =
     (case call_invoker invoker method req reply w of
        (Some err, reply', w1) \<Rightarrow> (Return (Some err), req, reply', w1)
      | (None, reply', w1) \<Rightarrow>
          (case req of
             CommitReq in' \<Rightarrow>
               (case mutation_keys (Mutations in') [] of
                  None \<Rightarrow> (Panic, req, reply', w1)
                | Some keys \<Rightarrow>
                    if length keys > 0
                    then (case call_DeleteMulti cacher keys w1 of
                            (e, w2) \<Rightarrow> (Return e, req, reply', w2))
                    else (Return None, req, reply', w1))
           | _ \<Rightarrow> (Panic, req, reply', w1)))"

definition UnaryClientInterceptor ::
  "'c Cacher \<Rightarrow> Proto \<Rightarrow> 'r Invoker \<Rightarrow> string \<Rightarrow> Request \<Rightarrow> Reply \<Rightarrow> ('c, 'r) World
     \<Rightarrow> outcome \<times> Request \<times> Reply \<times> ('c, 'r) World" where
  "UnaryClientInterceptor cacher proto invoker method req reply w =
     (if method = method_Lookup then lookup_case cacher proto invoker method req reply w
      else if method = method_Commit then commit_case cacher invoker method req reply w
      else forward invoker method req reply w)"

section \<open>The query rewriting interceptor (transform.QueryToLookupWithKeysOnly)\<close>

definition GetKey :: "Entity option \<Rightarrow> Key" where
  "GetKey e = (case e of None \<Rightarrow> \<lparr>PartitionId = None, Path = []\<rparr> | Some x \<Rightarrow> Key x)"

definition GetEntityResults :: "QueryResultBatch option \<Rightarrow> EntityResult list" where
  "GetEntityResults b = (case b of None \<Rightarrow> [] | Some x \<Rightarrow> EntityResults x)"

text \<open>
  Setting the results in transform/transform.go: the entity of the i-th found result
  goes into the i-th slot of the batch. An index beyond the batch panics (\<open>None\<close>);
  the length test before the loop excludes it.
\<close>

fun set_results :: "nat \<Rightarrow> EntityResult list \<Rightarrow> EntityResult list \<Rightarrow> EntityResult list option" where
  "set_results i [] rs = Some rs"
| "set_results i (v # vs) rs =
     (if i < length rs
      then set_results (Suc i) vs (rs[i := (rs ! i)\<lparr>Entity := Entity v\<rparr>])
      else None)"

text \<open>
  Setting the results in the later revision of the file: the loop over the keys-only
  results fills \<open>keymap\<close> with the index of each key under its \<open>String()\<close> form,
  and the entity of a found result goes into the slot \<open>keymap\<close> gives for its key, slot
  0 when the key is not in the map. \<open>String()\<close> belongs to the protobuf library and is
  the parameter \<open>kstr\<close>.
\<close>

fun build_keymap ::
  "(Key \<Rightarrow> string) \<Rightarrow> nat \<Rightarrow> EntityResult list \<Rightarrow> (string \<rightharpoonup> nat) \<Rightarrow> (string \<rightharpoonup> nat)" where
  "build_keymap kstr i [] keymap = keymap"
| "build_keymap kstr i (v # vs) keymap =
     build_keymap kstr (Suc i) vs (keymap(kstr (GetKey (Entity v)) \<mapsto> i))"

fun set_results_keymap ::
  "(Key \<Rightarrow> string) \<Rightarrow> (string \<rightharpoonup> nat) \<Rightarrow> EntityResult list \<Rightarrow> EntityResult list
     \<Rightarrow> EntityResult list option" where
  "set_results_keymap kstr keymap [] rs = Some rs"
| "set_results_keymap kstr keymap (v # vs) rs =
     (let e = Entity v;
          i = (case keymap (kstr (GetKey e)) of None \<Rightarrow> 0 | Some j \<Rightarrow> j)
      in if i < length rs
         then set_results_keymap kstr keymap vs (rs[i := (rs ! i)\<lparr>Entity := e\<rparr>])
         else None)"

definition errLookupLength :: error where
  "errLookupLength = Error ''could not lookup entities with same length as keys''"

text \<open>
  The body both revisions share; \<open>setres\<close> is the loop that sets the results, given the
  keys-only results and the found results. The request is returned as the deferred
  function leaves it: with the projection reset.
\<close>

definition rewrite_query ::
  "(EntityResult list \<Rightarrow> EntityResult list \<Rightarrow> EntityResult list option)
     \<Rightarrow> 'r Invoker \<Rightarrow> string \<Rightarrow> Request \<Rightarrow> Reply \<Rightarrow> ('c, 'r) World
     \<Rightarrow> outcome \<times> Request \<times> Reply \<times> ('c, 'r) World" where
  "rewrite_query setres invoker method req reply w =
     (if method \<noteq> method_RunQuery then forward invoker method req reply w
      else
        (case req of
           RunQueryReq in' \<Rightarrow>
             (case QueryType in' of
                StructuredQuery query \<Rightarrow>
                  if Projection query \<noteq> None then forward invoker method req reply w
                  else
                    (let sent = RunQueryReq
                           (in'\<lparr>QueryType :=
                                  StructuredQuery (query\<lparr>Projection := Some [''__key__'']\<rparr>)\<rparr>);
                         restored = RunQueryReq
                           (in'\<lparr>QueryType := StructuredQuery (query\<lparr>Projection := None\<rparr>)\<rparr>)
                     in case call_invoker invoker method sent reply w of
                          (Some err, reply1, w1) \<Rightarrow> (Return (Some err), restored, reply1, w1)
                        | (None, reply1, w1) \<Rightarrow>
                            (case reply1 of
                               RunQueryRep out \<Rightarrow>
                                 (let result = GetEntityResults (Batch out) in
                                  if length result = 0 then (Return None, restored, reply1, w1)
                                  else
                                    (let getReq =
                                           \<lparr>LookupProjectId = QueryProjectId in',
                                            LookupReadOptions = QueryReadOptions in',
                                            Keys = map (\<lambda>v. GetKey (Entity v)) result\<rparr>;
                                         getReply = \<lparr>Found = None, Missing = [], Deferred = []\<rparr>
                                     in case call_invoker invoker method_Lookup (LookupReq getReq)
                                               (LookupRep getReply) w1 of
                                          (Some err, reply2, w2) \<Rightarrow>
                                            (Return (Some err), restored, reply1, w2)
                                        | (None, reply2, w2) \<Rightarrow>
                                            (case reply2 of
                                               LookupRep got \<Rightarrow>
                                                 (let found = elems (Found got) in
                                                  if length found \<noteq> length result
                                                  then (Return (Some errLookupLength), restored,
                                                        reply1, w2)
                                                  else
                                                    (case setres result found of
                                                       None \<Rightarrow> (Panic, restored, reply1, w2)
                                                     | Some rs \<Rightarrow>
                                                         (Return None, restored,
                                                          RunQueryRep
                                                            (out\<lparr>Batch :=
                                                               map_option
                                                                 (\<lambda>b. b\<lparr>EntityResults := rs,
                                                                        EntityResultType := FULL\<rparr>)
                                                                 (Batch out)\<rparr>),
                                                          w2)))
                                             | _ \<Rightarrow> (Panic, restored, reply1, w2))))
                             | _ \<Rightarrow> (Panic, restored, reply1, w1)))
              | _ \<Rightarrow> forward invoker method req reply w)
         | _ \<Rightarrow> (Panic, req, reply, w)))"

text \<open>transform/transform.go\<close>

definition QueryToLookupWithKeysOnly ::
  "'r Invoker \<Rightarrow> string \<Rightarrow> Request \<Rightarrow> Reply \<Rightarrow> ('c, 'r) World
     \<Rightarrow> outcome \<times> Request \<times> Reply \<times> ('c, 'r) World" where
  "QueryToLookupWithKeysOnly =
     rewrite_query (\<lambda>result found. set_results 0 found result)"

text \<open>The later revision, with the key map.\<close>

definition QueryToLookupWithKeysOnly_keymap ::
  "(Key \<Rightarrow> string) \<Rightarrow> 'r Invoker \<Rightarrow> string \<Rightarrow> Request \<Rightarrow> Reply \<Rightarrow> ('c, 'r) World
     \<Rightarrow> outcome \<times> Request \<times> Reply \<times> ('c, 'r) World" where
  "QueryToLookupWithKeysOnly_keymap kstr =
     rewrite_query (\<lambda>result found.
       set_results_keymap kstr (build_keymap kstr 0 result Map.empty) found result)"

section \<open>Closed forms of the loops and of the results\<close>

text \<open>
  The result of the slot loop in closed form: a slot is a hit when it is not \<open>nil\<close>
  and unmarshals; the hits are the entity results of the hit slots, the misses the keys
  of the other slots, both in slot order.
\<close>

fun hit :: "(bytes \<Rightarrow> EntityResult option) \<Rightarrow> bytes option \<Rightarrow> EntityResult option" where
  "hit unmarshal None = None"
| "hit unmarshal (Some b) = unmarshal b"

definition cache_hits ::
  "(bytes \<Rightarrow> EntityResult option) \<Rightarrow> bytes option list \<Rightarrow> EntityResult list" where
  "cache_hits unmarshal cached = List.map_filter (hit unmarshal) cached"

definition cache_misses ::
  "(bytes \<Rightarrow> EntityResult option) \<Rightarrow> Key list \<Rightarrow> bytes option list \<Rightarrow> Key list" where
  "cache_misses unmarshal keys cached =
     map fst (filter (\<lambda>(k, v). hit unmarshal v = None) (zip keys cached))"

text \<open>The keys asked of the remote service: all of them when the cacher returned no
  slot at all, the misses otherwise.\<close>

definition remote_keys ::
  "(bytes \<Rightarrow> EntityResult option) \<Rightarrow> Key list \<Rightarrow> bytes option list \<Rightarrow> Key list" where
  "remote_keys unmarshal keys cached =
     (if cached = [] then keys else cache_misses unmarshal keys cached)"

text \<open>The pairs of key and bytes handed to \<open>SetMulti\<close>: one for each fetched entity
  result that marshals.\<close>

definition saved_entries ::
  "(EntityResult \<Rightarrow> bytes option) \<Rightarrow> EntityResult list \<Rightarrow> (Key \<times> bytes) list" where
  "saved_entries marshal got =
     List.map_filter
       (\<lambda>v. case marshal v of None \<Rightarrow> None | Some b \<Rightarrow> Some (GetKey (Entity v), b)) got"

text \<open>The keys of the Update, Upsert and Delete mutations, in mutation order.\<close>

fun mutated_key :: "Mutation \<Rightarrow> Key list" where
  "mutated_key (Update (Some e)) = [Key e]"
| "mutated_key (Upsert (Some e)) = [Key e]"
| "mutated_key (Delete k) = [k]"
| "mutated_key _ = []"

definition mutated_keys :: "Mutation list \<Rightarrow> Key list" where
  "mutated_keys ms = concat (map mutated_key ms)"

text \<open>The key lists of the \<open>DeleteMulti\<close> calls in a log.\<close>

fun delete_call :: "Event \<Rightarrow> Key list list" where
  "delete_call (CallDeleteMulti keys) = [keys]"
| "delete_call _ = []"

definition delete_calls :: "Event list \<Rightarrow> Key list list" where
  "delete_calls evs = concat (map delete_call evs)"

text \<open>The parts of what a call of an interceptor leaves behind.\<close>

definition reply_of :: "outcome \<times> Request \<times> Reply \<times> ('c, 'r) World \<Rightarrow> Reply" where
  "reply_of res = fst (snd (snd res))"

definition world_of :: "outcome \<times> Request \<times> Reply \<times> ('c, 'r) World \<Rightarrow> ('c, 'r) World" where
  "world_of res = snd (snd (snd res))"

text \<open>The two requests the query rewriting sends: the query with the keys-only
  projection, and the Lookup of the keys of the keys-only results.\<close>

definition keys_only_request :: "RunQueryRequest \<Rightarrow> Query \<Rightarrow> Request" where
  "keys_only_request in' query =
     RunQueryReq
       (in'\<lparr>QueryType := StructuredQuery (query\<lparr>Projection := Some [''__key__'']\<rparr>)\<rparr>)"

definition lookup_request :: "RunQueryRequest \<Rightarrow> EntityResult list \<Rightarrow> Request" where
  "lookup_request in' result =
     LookupReq \<lparr>LookupProjectId = QueryProjectId in',
                LookupReadOptions = QueryReadOptions in',
                Keys = map (\<lambda>v. GetKey (Entity v)) result\<rparr>"

text \<open>
  Splicing by key correspondence: each found result puts its entity into the slots whose
  key is the key of that entity. Splicing by position: the i-th found result puts its
  entity into the i-th slot.
\<close>

definition result_keys :: "EntityResult list \<Rightarrow> Key list" where
  "result_keys rs = map (\<lambda>v. GetKey (Entity v)) rs"

definition put_by_key :: "EntityResult list \<Rightarrow> EntityResult \<Rightarrow> EntityResult list" where
  "put_by_key rs v =
     map (\<lambda>r. if GetKey (Entity r) = GetKey (Entity v) then r\<lparr>Entity := Entity v\<rparr> else r) rs"

definition splice_by_key :: "EntityResult list \<Rightarrow> EntityResult list \<Rightarrow> EntityResult list" where
  "splice_by_key result found = foldl put_by_key result found"

definition splice_by_position :: "EntityResult list \<Rightarrow> EntityResult list \<Rightarrow> EntityResult list" where
  "splice_by_position result found = map (\<lambda>(r, v). r\<lparr>Entity := Entity v\<rparr>) (zip result found)"

text \<open>The number a string of decimal digits denotes, to read \<open>decimal\<close> back.\<close>

definition digits_value :: "string \<Rightarrow> nat" where
  "digits_value s = foldl (\<lambda>a c. 10 * a + (of_char c - 48)) 0 s"

section \<open>Collaborators for the examples\<close>

text \<open>
  An invoker that replays recorded responses in order, and a cacher in the manner of
  the mock of the test suite: \<open>GetMulti\<close> answers with fixed values, \<open>SetMulti\<close> and
  \<open>DeleteMulti\<close> record the keys they are given, and \<open>DeleteMulti\<close> returns a fixed
  error value.
\<close>

definition replay :: "((error option \<times> Reply) list) Invoker" where
  "replay r method req reply =
     (case r of
        [] \<Rightarrow> (Some (Error ''replay: no response left''), reply, [])
      | (e, reply') # rest \<Rightarrow> (e, reply', rest))"

record mock =
  mock_values :: "bytes option list"
  mock_err :: "error option"
  setKeys :: "Key list"
  delKeys :: "Key list"

definition mock_Cacher :: "mock Cacher" where
  "mock_Cacher =
     \<lparr>GetMulti = (\<lambda>m keys. (mock_values m, m)),
      SetMulti = (\<lambda>m keys items. m\<lparr>setKeys := setKeys m @ keys\<rparr>),
      DeleteMulti = (\<lambda>m keys. (mock_err m, m\<lparr>delKeys := delKeys m @ keys\<rparr>))\<rparr>"

definition mock_with :: "bytes option list \<Rightarrow> error option \<Rightarrow> mock" where
  "mock_with vs e = \<lparr>mock_values = vs, mock_err = e, setKeys = [], delKeys = []\<rparr>"

text \<open>A codec given by a table of encodings.\<close>

definition table_Proto :: "(bytes \<times> EntityResult) list \<Rightarrow> Proto" where
  "table_Proto tbl =
     \<lparr>Unmarshal = map_of tbl, Marshal = map_of (map (\<lambda>(b, v). (v, b)) tbl)\<rparr>"

text \<open>\<open>strconv.Quote\<close> on a name of printable ASCII characters other than the double
  quote and the backslash.\<close>

definition quote_plain :: "string \<Rightarrow> string" where
  "quote_plain s = CHR 0x22 # s @ [CHR 0x22]"

definition IDKey :: "string \<Rightarrow> 64 word \<Rightarrow> Key" where
  "IDKey kind i = \<lparr>PartitionId = None, Path = [\<lparr>Kind = kind, IdType = Id i\<rparr>]\<rparr>"

definition entity_result :: "Key \<Rightarrow> string \<Rightarrow> EntityResult" where
  "entity_result k d =
     \<lparr>Entity = Some \<lparr>Key = k, Properties = [(''Data'', d)]\<rparr>, Version = 1\<rparr>"

definition key_only :: "Key \<Rightarrow> EntityResult" where
  "key_only k = \<lparr>Entity = Some \<lparr>Key = k, Properties = []\<rparr>, Version = 1\<rparr>"

definition v1 :: EntityResult where
  "v1 = entity_result (IDKey ''k'' 1) ''aaa''"

definition v2 :: EntityResult where
  "v2 = entity_result (IDKey ''k'' 2) ''bbb''"

definition codec :: Proto where
  "codec = table_Proto [([1], v1), ([2], v2)]"

definition emptyLookupResponse :: LookupResponse where
  "emptyLookupResponse = \<lparr>Found = None, Missing = [], Deferred = []\<rparr>"

definition plainLookup :: "Key list \<Rightarrow> LookupRequest" where
  "plainLookup keys = \<lparr>LookupProjectId = ''test'', LookupReadOptions = None, Keys = keys\<rparr>"

definition txLookup :: "bytes \<Rightarrow> Key list \<Rightarrow> LookupRequest" where
  "txLookup t keys =
     \<lparr>LookupProjectId = ''test'',
      LookupReadOptions = Some \<lparr>ConsistencyType = Transaction (Some t)\<rparr>,
      Keys = keys\<rparr>"

definition commitOf :: "CommitMode \<Rightarrow> bytes option \<Rightarrow> Mutation list \<Rightarrow> CommitRequest" where
  "commitOf m t ms =
     \<lparr>CommitProjectId = ''test'', Mode = m, TransactionSelector = t, Mutations = ms\<rparr>"

definition queryAll :: RunQueryRequest where
  "queryAll =
     \<lparr>QueryProjectId = ''test'', QueryReadOptions = None,
      QueryType = StructuredQuery
        \<lparr>Projection = None, QueryKind = [''k''], Limit = None, Offset = 0\<rparr>\<rparr>"

definition keysOnlyBatch :: "Key list \<Rightarrow> RunQueryResponse" where
  "keysOnlyBatch keys =
     \<lparr>Batch = Some \<lparr>EntityResultType = KEY_ONLY, EntityResults = map key_only keys\<rparr>\<rparr>"

definition initial :: "'c \<Rightarrow> 'r \<Rightarrow> ('c, 'r) World" where
  "initial c r = \<lparr>Cache = c, Remote = r, Calls = []\<rparr>"

section \<open>Facts about the loops\<close>

lemma elems_simps [simp]: "elems None = []" "elems (Some xs) = xs"
  by (simp_all add: elems_def)

lemma method_distinct [simp]:
  "method_Lookup \<noteq> method_Commit" "method_Commit \<noteq> method_Lookup"
  "method_Lookup \<noteq> method_RunQuery" "method_RunQuery \<noteq> method_Lookup"
  "method_Commit \<noteq> method_RunQuery" "method_RunQuery \<noteq> method_Commit"
  by (simp_all add: method_Lookup_def method_Commit_def method_RunQuery_def)

lemma mutation_keys_eq:
  "\<forall>m\<in>set ms. m \<noteq> Update None \<and> m \<noteq> Upsert None \<Longrightarrow>
     mutation_keys ms keys = Some (keys @ mutated_keys ms)"
proof (induction ms arbitrary: keys)
  case Nil
  then show ?case by (simp add: mutated_keys_def)
next
  case (Cons m ms)
  then have IH: "\<And>ks. mutation_keys ms ks = Some (ks @ mutated_keys ms)" by simp
  from Cons.prems have wf: "m \<noteq> Update None" "m \<noteq> Upsert None" by simp_all
  show ?case
  proof (cases m)
    case (Update e)
    with wf obtain x where "e = Some x" by (cases e) auto
    with Update IH show ?thesis by (simp add: mutated_keys_def)
  next
    case (Upsert e)
    with wf obtain x where "e = Some x" by (cases e) auto
    with Upsert IH show ?thesis by (simp add: mutated_keys_def)
  qed (use IH in \<open>simp_all add: mutated_keys_def\<close>)
qed

lemma scan_cached_eq:
  "i + length cached \<le> length keys \<Longrightarrow>
     scan_cached unmarshal keys i cached found missing =
       Some (found @ cache_hits unmarshal cached,
             missing @ cache_misses unmarshal (drop i keys) cached)"
proof (induction cached arbitrary: i found missing)
  case Nil
  then show ?case by (simp add: cache_hits_def cache_misses_def)
next
  case (Cons v vs)
  then have i: "i < length keys" and le: "Suc i + length vs \<le> length keys" by simp_all
  have d: "drop i keys = keys ! i # drop (Suc i) keys"
    using i by (simp add: Cons_nth_drop_Suc)
  note IH = Cons.IH [OF le]
  show ?case
  proof (cases "hit unmarshal v")
    case None
    then show ?thesis
      using i IH d
      by (cases v) (simp_all add: cache_hits_def cache_misses_def)
  next
    case (Some e)
    then show ?thesis
      using i IH d
      by (cases v) (simp_all add: cache_hits_def cache_misses_def)
  qed
qed

lemma scan_cached_contract:
  assumes "length cached = length keys \<or> cached = []"
  shows "scan_cached unmarshal keys 0 cached [] [] =
     Some (cache_hits unmarshal cached, cache_misses unmarshal keys cached)"
proof (cases "cached = []")
  case True
  then show ?thesis by (simp add: cache_hits_def cache_misses_def)
next
  case False
  with assms have "0 + length cached \<le> length keys" by simp
  from scan_cached_eq [OF this] show ?thesis by simp
qed

lemma cache_hits_all:
  "list_all2 (\<lambda>v e. hit unmarshal v = Some e) cached es \<Longrightarrow> cache_hits unmarshal cached = es"
  by (induction cached es rule: list_all2_induct) (simp_all add: cache_hits_def)

lemma save_cache_eq:
  "\<forall>v\<in>set got. marshal v \<noteq> None \<longrightarrow> Entity v \<noteq> None \<Longrightarrow>
     save_cache marshal got skeys vals =
       Some (skeys @ map fst (saved_entries marshal got),
             vals @ map snd (saved_entries marshal got))"
proof (induction got arbitrary: skeys vals)
  case Nil
  then show ?case by (simp add: saved_entries_def)
next
  case (Cons v vs)
  from Cons have IH: "\<And>ks bs. save_cache marshal vs ks bs =
       Some (ks @ map fst (saved_entries marshal vs), bs @ map snd (saved_entries marshal vs))"
    by simp
  show ?case
  proof (cases "marshal v")
    case None
    with IH show ?thesis by (simp add: saved_entries_def)
  next
    case (Some b)
    with Cons.prems obtain e where "Entity v = Some e" by auto
    with Some IH show ?thesis by (simp add: saved_entries_def GetKey_def)
  qed
qed

lemma IDKey_eq: "IDKey k i = IDKey k' j \<longleftrightarrow> k = k' \<and> i = j"
  by (auto simp: IDKey_def)

lemma example_keystr:
  "keystr quote_plain (IDKey ''k'' 1) = ''[default]k1''"
  "keystr quote_plain (IDKey ''k'' 2) = ''[default]k2''"
  by (simp_all add: keystr_def nsstr_def GetNamespaceId_def IDKey_def FormatInt_def
      decimal.simps digit_def)

lemma codec_simps:
  "Unmarshal codec [1] = Some v1" "Unmarshal codec [2] = Some v2"
  "Marshal codec v1 = Some [1]" "Marshal codec v2 = Some [2]"
  "Entity v1 = Some \<lparr>Key = IDKey ''k'' 1, Properties = [(''Data'', ''aaa'')]\<rparr>"
  "Entity v2 = Some \<lparr>Key = IDKey ''k'' 2, Properties = [(''Data'', ''bbb'')]\<rparr>"
  "v1 \<noteq> v2" "v2 \<noteq> v1"
  by (simp_all add: codec_def table_Proto_def v1_def v2_def entity_result_def IDKey_def)

section \<open>Facts about the key string\<close>

lemma digit_code: "d < 10 \<Longrightarrow> (of_char (digit d) :: nat) = 48 + d"
proof -
  assume "d < 10"
  then have "d = 0 \<or> d = 1 \<or> d = 2 \<or> d = 3 \<or> d = 4
      \<or> d = 5 \<or> d = 6 \<or> d = 7 \<or> d = 8 \<or> d = 9"
    by arith
  then show ?thesis
    by (elim disjE) (simp_all add: digit_def)
qed

lemma digits_value_decimal: "digits_value (decimal n) = n"
proof (induction n rule: decimal.induct)
  case (1 n)
  show ?case
  proof (cases "n < 10")
    case True
    then show ?thesis
      by (subst decimal.simps) (simp add: digits_value_def digit_code)
  next
    case False
    then have "digits_value (decimal (n div 10)) = n div 10"
      using "1.IH" by simp
    moreover have "(of_char (digit (n mod 10)) :: nat) = 48 + n mod 10"
      by (simp add: digit_code)
    ultimately show ?thesis
      using False by (subst decimal.simps) (simp add: digits_value_def)
  qed
qed

lemma decimal_inj: "decimal a = decimal b \<Longrightarrow> a = b"
  by (metis digits_value_decimal)

lemma decimal_chars: "c \<in> set (decimal n) \<Longrightarrow> (48::nat) \<le> of_char c"
proof (induction n rule: decimal.induct)
  case (1 n)
  show ?case
  proof (cases "n < 10")
    case True
    with "1.prems" have "c = digit n"
      by (subst (asm) decimal.simps) simp
    with True show ?thesis by (simp add: digit_code)
  next
    case False
    with "1.prems" have "c \<in> set (decimal (n div 10)) \<or> c = digit (n mod 10)"
      by (subst (asm) decimal.simps) auto
    then show ?thesis
      using "1.IH" False by (auto simp: digit_code)
  qed
qed

lemma decimal_no_minus: "decimal n \<noteq> CHR ''-'' # s"
proof
  assume "decimal n = CHR ''-'' # s"
  then have "CHR ''-'' \<in> set (decimal n)" by simp
  from decimal_chars [OF this] show False by simp
qed

lemma FormatInt_inj: "FormatInt i = FormatInt j \<Longrightarrow> i = j"
proof -
  assume eq: "FormatInt i = FormatInt j"
  consider "i < 0" "j < 0" | "i < 0" "\<not> j < 0" | "\<not> i < 0" "j < 0" | "\<not> i < 0" "\<not> j < 0"
    by blast
  then show ?thesis
  proof cases
    case 1
    with eq have "nat (- i) = nat (- j)" by (simp add: FormatInt_def decimal_inj)
    with 1 show ?thesis by simp
  next
    case 2
    with eq show ?thesis
      using decimal_no_minus [of "nat j" "decimal (nat (- i))"] by (simp add: FormatInt_def)
  next
    case 3
    with eq show ?thesis
      using decimal_no_minus [of "nat i" "decimal (nat (- j))"] by (simp add: FormatInt_def)
  next
    case 4
    with eq have "nat i = nat j" by (simp add: FormatInt_def decimal_inj)
    with 4 show ?thesis by simp
  qed
qed

lemma write_path_eq:
  "write_path quote b ps = b @ concat (map (\<lambda>p. Kind p @ concat (idstr quote (IdType p))) ps)"
  by (induction ps arbitrary: b) simp_all

lemma append_path_eq:
  "append_path quote s ps = s @ concat (map (\<lambda>p. Kind p # idstr quote (IdType p)) ps)"
  by (induction ps arbitrary: s) simp_all

lemma Join_snoc: "xs \<noteq> [] \<Longrightarrow> Join (xs @ [y]) sep = Join xs sep @ sep @ y"
  by (induction xs sep rule: Join.induct) simp_all

lemma same_key_keystr:
  "same_key k1 k2 \<Longrightarrow>
     keystr quote k1 = keystr quote k2 \<and> redis_keystr quote k1 = redis_keystr quote k2"
  by (simp add: same_key_def keystr_def redis_keystr_def nsstr_def)

lemma decimal_nonempty: "decimal n \<noteq> []"
  by (subst decimal.simps) simp

lemma FormatInt_first: "\<exists>c cs. FormatInt i = c # cs \<and> c \<noteq> CHR 0x22"
proof (cases "i < 0")
  case True
  then show ?thesis by (simp add: FormatInt_def)
next
  case False
  obtain c cs where d: "decimal (nat i) = c # cs"
    using decimal_nonempty [of "nat i"] by (cases "decimal (nat i)") auto
  then have "c \<in> set (decimal (nat i))" by simp
  from decimal_chars [OF this] have "c \<noteq> CHR 0x22" by auto
  with d False show ?thesis by (simp add: FormatInt_def)
qed

lemma idstr_inj:
  assumes q: "inj quote" "\<forall>s. take 1 (quote s) = [CHR 0x22]"
      and eq: "idstr quote t1 = idstr quote t2"
  shows "t1 = t2"
proof -
  have fq: "FormatInt i \<noteq> quote s" for i s
  proof
    assume e: "FormatInt i = quote s"
    obtain c cs where f: "FormatInt i = c # cs" "c \<noteq> CHR 0x22"
      using FormatInt_first by blast
    from e f(1) have "quote s = c # cs" by simp
    then have "take 1 (quote s) = [c]" by simp
    moreover from q(2) have "take 1 (quote s) = [CHR 0x22]" by blast
    ultimately show False using f(2) by simp
  qed
  show ?thesis
  proof (cases t1)
    case IdNone
    with eq show ?thesis by (cases t2) simp_all
  next
    case (Id i)
    show ?thesis
    proof (cases t2)
      case IdNone
      with Id eq show ?thesis by simp
    next
      case (Id j)
      with \<open>t1 = Id i\<close> eq have "FormatInt (sint i) = FormatInt (sint j)" by simp
      then have "sint i = sint j" by (rule FormatInt_inj)
      then have "i = j" by (rule signed_word_eqI)
      with Id \<open>t1 = Id i\<close> show ?thesis by simp
    next
      case (Name n)
      with Id eq fq [of "sint i" n] show ?thesis by simp
    qed
  next
    case (Name n)
    show ?thesis
    proof (cases t2)
      case IdNone
      with Name eq show ?thesis by simp
    next
      case (Id j)
      with Name eq fq [of "sint j" n] show ?thesis by simp
    next
      case (Name m)
      with \<open>t1 = Name n\<close> eq have "quote n = quote m" by simp
      with q(1) have "n = m" by (simp add: inj_eq)
      with Name \<open>t1 = Name n\<close> show ?thesis by simp
    qed
  qed
qed

lemma idstr_length: "length (idstr quote t) \<le> 1"
  by (cases t) simp_all

lemma Join_suffix_inj:
  assumes "xs \<noteq> []" "length a \<le> 1" "length b \<le> 1"
      and "Join (xs @ a) sep = Join (xs @ b) sep" "sep \<noteq> []"
  shows "a = b"
proof -
  have one: "Join (xs @ [y]) sep = Join xs sep @ sep @ y" for y
    using Join_snoc [OF assms(1)] by simp
  consider "a = []" "b = []" | y where "a = []" "b = [y]" | x where "a = [x]" "b = []"
    | x y where "a = [x]" "b = [y]"
    using assms(2,3)
    by (cases a; cases b) (auto simp: length_Suc_conv)
  then show ?thesis
  proof cases
    case 1
    then show ?thesis by simp
  next
    case 2
    with assms(4,5) one show ?thesis by simp
  next
    case 3
    with assms(4,5) one show ?thesis by simp
  next
    case 4
    with assms(4) one show ?thesis by simp
  qed
qed

lemma concat_idstr_inj:
  assumes "concat (idstr quote t1) = concat (idstr quote t2)"
      and "inj quote" "\<forall>s. take 1 (quote s) = [CHR 0x22]"
  shows "idstr quote t1 = idstr quote t2"
proof -
  have ne: "quote s \<noteq> []" for s
    using assms(3) by (metis take_eq_Nil not_Cons_self2)
  have fne: "FormatInt i \<noteq> []" for i
    using FormatInt_first [of i] by auto
  show ?thesis
    using assms(1)
    by (cases t1; cases t2) (simp_all add: ne fne eq_commute [of "[]"])
qed

lemma keystr_siblings:
  assumes q: "inj quote" "\<forall>s. take 1 (quote s) = [CHR 0x22]"
      and ns: "GetNamespaceId (PartitionId k1) = GetNamespaceId (PartitionId k2)"
      and p1: "Path k1 = ps @ [\<lparr>Kind = kd, IdType = t1\<rparr>]"
      and p2: "Path k2 = ps @ [\<lparr>Kind = kd, IdType = t2\<rparr>]"
  shows "(keystr quote k1 = keystr quote k2 \<longleftrightarrow> same_key k1 k2)
       \<and> (redis_keystr quote k1 = redis_keystr quote k2 \<longleftrightarrow> same_key k1 k2)"
proof -
  have same: "same_key k1 k2 \<longleftrightarrow> t1 = t2"
    using ns p1 p2 by (simp add: same_key_def)
  have nss: "nsstr k1 = nsstr k2"
    using ns by (simp add: nsstr_def)
  have a: "keystr quote k1 = keystr quote k2 \<longleftrightarrow> t1 = t2"
  proof
    assume "keystr quote k1 = keystr quote k2"
    then have "concat (idstr quote t1) = concat (idstr quote t2)"
      by (simp add: keystr_def write_path_eq p1 p2 nss)
    from concat_idstr_inj [OF this q] idstr_inj [OF q] show "t1 = t2" by blast
  next
    assume "t1 = t2"
    then show "keystr quote k1 = keystr quote k2"
      by (simp add: keystr_def write_path_eq p1 p2 nss)
  qed
  have b: "redis_keystr quote k1 = redis_keystr quote k2 \<longleftrightarrow> t1 = t2"
  proof
    assume "redis_keystr quote k1 = redis_keystr quote k2"
    then have "Join ((append_path quote [nsstr k2] ps @ [kd]) @ idstr quote t1) ''/'' =
        Join ((append_path quote [nsstr k2] ps @ [kd]) @ idstr quote t2) ''/''"
      by (simp add: redis_keystr_def append_path_eq p1 p2 nss)
    from Join_suffix_inj [OF _ idstr_length idstr_length this]
    have "idstr quote t1 = idstr quote t2" by simp
    from idstr_inj [OF q this] show "t1 = t2" .
  next
    assume "t1 = t2"
    then show "redis_keystr quote k1 = redis_keystr quote k2"
      by (simp add: redis_keystr_def append_path_eq p1 p2 nss)
  qed
  show ?thesis using same a b by simp
qed

section \<open>Facts about the query rewriting\<close>

lemma set_results_eq:
  "i + length vs = length rs \<Longrightarrow>
     set_results i vs rs = Some (take i rs @ splice_by_position (drop i rs) vs)"
proof (induction vs arbitrary: i rs)
  case Nil
  then show ?case by (simp add: splice_by_position_def)
next
  case (Cons v vs)
  then have i: "i < length rs" by simp
  let ?rs = "rs[i := (rs ! i)\<lparr>Entity := Entity v\<rparr>]"
  have "Suc i + length vs = length ?rs" using Cons.prems by simp
  from Cons.IH [OF this]
  have "set_results (Suc i) vs ?rs =
      Some (take (Suc i) ?rs @ splice_by_position (drop (Suc i) ?rs) vs)" .
  moreover have "take (Suc i) ?rs = take i rs @ [(rs ! i)\<lparr>Entity := Entity v\<rparr>]"
    using i by (simp add: take_Suc_conv_app_nth)
  moreover have "drop (Suc i) ?rs = drop (Suc i) rs" by simp
  moreover have "drop i rs = rs ! i # drop (Suc i) rs"
    using i by (simp add: Cons_nth_drop_Suc)
  ultimately show ?case
    using i by (simp add: splice_by_position_def)
qed

lemma build_keymap_other:
  "s \<notin> kstr ` set (result_keys vs) \<Longrightarrow> build_keymap kstr n vs m s = m s"
  by (induction vs arbitrary: n m) (auto simp: result_keys_def)

lemma build_keymap_index:
  "distinct (map kstr (result_keys vs)) \<Longrightarrow> i < length vs \<Longrightarrow>
     build_keymap kstr n vs m (kstr (result_keys vs ! i)) = Some (n + i)"
proof (induction vs arbitrary: n m i)
  case Nil
  then show ?case by simp
next
  case (Cons v vs)
  show ?case
  proof (cases i)
    case 0
    have "kstr (GetKey (Entity v)) \<notin> kstr ` set (result_keys vs)"
      using Cons.prems(1) by (simp add: result_keys_def image_image)
    from build_keymap_other [OF this] 0 show ?thesis
      by (simp add: result_keys_def)
  next
    case (Suc j)
    with Cons.prems have "distinct (map kstr (result_keys vs))" "j < length vs"
      by (simp_all add: result_keys_def)
    from Cons.IH [OF this] Suc show ?thesis
      by (simp add: result_keys_def)
  qed
qed

lemma put_by_key_update:
  assumes "distinct (result_keys rs)" "i < length rs" "result_keys rs ! i = GetKey (Entity v)"
  shows "put_by_key rs v = rs[i := (rs ! i)\<lparr>Entity := Entity v\<rparr>]"
proof (rule nth_equalityI)
  show "length (put_by_key rs v) = length (rs[i := (rs ! i)\<lparr>Entity := Entity v\<rparr>])"
    by (simp add: put_by_key_def)
next
  fix j
  assume "j < length (put_by_key rs v)"
  then have j: "j < length rs" by (simp add: put_by_key_def)
  show "put_by_key rs v ! j = rs[i := (rs ! i)\<lparr>Entity := Entity v\<rparr>] ! j"
  proof (cases "j = i")
    case True
    with assms j show ?thesis by (simp add: put_by_key_def result_keys_def)
  next
    case False
    have "length (result_keys rs) = length rs" by (simp add: result_keys_def)
    then have "result_keys rs ! j \<noteq> result_keys rs ! i"
      using assms(1,2) j False by (simp add: nth_eq_iff_index_eq)
    with assms(2,3) j False show ?thesis
      by (simp add: put_by_key_def result_keys_def)
  qed
qed

lemma put_by_key_keys: "result_keys (put_by_key rs v) = result_keys rs"
  by (simp add: put_by_key_def result_keys_def GetKey_def)

lemma set_results_keymap_eq:
  assumes dist: "distinct (map kstr (result_keys result))"
      and sub: "set (result_keys found) \<subseteq> set (result_keys result)"
      and keys: "result_keys rs = result_keys result"
  shows "set_results_keymap kstr (build_keymap kstr 0 result Map.empty) found rs =
     Some (foldl put_by_key rs found)"
  using sub keys
proof (induction found arbitrary: rs)
  case Nil
  then show ?case by simp
next
  case (Cons v vs)
  from Cons.prems(1) have "GetKey (Entity v) \<in> set (result_keys result)"
    by (simp add: result_keys_def)
  then obtain i where i: "i < length result" "result_keys result ! i = GetKey (Entity v)"
    by (auto simp: in_set_conv_nth result_keys_def)
  have km: "build_keymap kstr 0 result Map.empty (kstr (GetKey (Entity v))) = Some i"
    using build_keymap_index [OF dist i(1), of 0 Map.empty] i(2) by simp
  have len: "length rs = length result"
    using Cons.prems(2) by (metis length_map result_keys_def)
  have d: "distinct (result_keys rs)"
    using dist Cons.prems(2) by (simp add: distinct_map)
  have upd: "rs[i := (rs ! i)\<lparr>Entity := Entity v\<rparr>] = put_by_key rs v"
    using put_by_key_update [OF d, of i v] i len Cons.prems(2) by simp
  have "set (result_keys vs) \<subseteq> set (result_keys result)"
    using Cons.prems(1) by (simp add: result_keys_def)
  moreover have "result_keys (put_by_key rs v) = result_keys result"
    using Cons.prems(2) by (simp add: put_by_key_keys)
  ultimately have "set_results_keymap kstr (build_keymap kstr 0 result Map.empty) vs
      (put_by_key rs v) = Some (foldl put_by_key (put_by_key rs v) vs)"
    by (rule Cons.IH)
  then show ?case
    using km i(1) len upd by (simp add: Let_def)
qed

lemma rewrite_query_mismatch:
  assumes q: "QueryType in' = StructuredQuery query" "Projection query = None"
      and scan: "invoker (Remote w) method_RunQuery (keys_only_request in' query) reply =
                   (None, RunQueryRep out, ra)"
      and res: "GetEntityResults (Batch out) \<noteq> []"
      and look: "invoker ra method_Lookup (lookup_request in' (GetEntityResults (Batch out)))
                   (LookupRep \<lparr>Found = None, Missing = [], Deferred = []\<rparr>) =
                   (None, LookupRep got, rb)"
      and len: "length (elems (Found got)) \<noteq> length (GetEntityResults (Batch out))"
  shows "rewrite_query setres invoker method_RunQuery (RunQueryReq in') reply w =
     (Return (Some errLookupLength), RunQueryReq in', RunQueryRep out,
      w\<lparr>Remote := rb,
        Calls := Calls w @
          [CallInvoker method_RunQuery (keys_only_request in' query),
           CallInvoker method_Lookup (lookup_request in' (GetEntityResults (Batch out)))]\<rparr>)"
proof -
  have restored: "in'\<lparr>QueryType := StructuredQuery (query\<lparr>Projection := None\<rparr>)\<rparr> = in'"
    using q by (cases in', cases query) simp
  show ?thesis
    using q scan res look len
    unfolding rewrite_query_def
    by (simp add: call_invoker_def Let_def restored
        keys_only_request_def [symmetric] lookup_request_def [symmetric])
qed

lemma rewrite_query_success:
  assumes q: "QueryType in' = StructuredQuery query" "Projection query = None"
      and scan: "invoker (Remote w) method_RunQuery (keys_only_request in' query) reply =
                   (None, RunQueryRep out, ra)"
      and res: "GetEntityResults (Batch out) \<noteq> []"
      and look: "invoker ra method_Lookup (lookup_request in' (GetEntityResults (Batch out)))
                   (LookupRep \<lparr>Found = None, Missing = [], Deferred = []\<rparr>) =
                   (None, LookupRep got, rb)"
      and len: "length (elems (Found got)) = length (GetEntityResults (Batch out))"
      and set: "setres (GetEntityResults (Batch out)) (elems (Found got)) = Some rs"
  shows "rewrite_query setres invoker method_RunQuery (RunQueryReq in') reply w =
     (Return None, RunQueryReq in',
      RunQueryRep (out\<lparr>Batch :=
        map_option (\<lambda>b. b\<lparr>EntityResults := rs, EntityResultType := FULL\<rparr>) (Batch out)\<rparr>),
      w\<lparr>Remote := rb,
        Calls := Calls w @
          [CallInvoker method_RunQuery (keys_only_request in' query),
           CallInvoker method_Lookup (lookup_request in' (GetEntityResults (Batch out)))]\<rparr>)"
proof -
  have restored: "in'\<lparr>QueryType := StructuredQuery (query\<lparr>Projection := None\<rparr>)\<rparr> = in'"
    using q by (cases in', cases query) simp
  show ?thesis
    using q scan res look len set
    unfolding rewrite_query_def
    by (simp add: call_invoker_def Let_def restored
        keys_only_request_def [symmetric] lookup_request_def [symmetric])
qed

lemma query_rewrite_by_position:
  assumes "QueryType in' = StructuredQuery query" "Projection query = None"
      and "invoker (Remote w) method_RunQuery (keys_only_request in' query) reply =
             (None, RunQueryRep out, ra)"
      and "GetEntityResults (Batch out) \<noteq> []"
      and "invoker ra method_Lookup (lookup_request in' (GetEntityResults (Batch out)))
             (LookupRep \<lparr>Found = None, Missing = [], Deferred = []\<rparr>) =
             (None, LookupRep got, rb)"
      and len: "length (elems (Found got)) = length (GetEntityResults (Batch out))"
  shows "QueryToLookupWithKeysOnly invoker method_RunQuery (RunQueryReq in') reply w =
     (Return None, RunQueryReq in',
      RunQueryRep (out\<lparr>Batch :=
        map_option (\<lambda>b. b\<lparr>EntityResults :=
                            splice_by_position (GetEntityResults (Batch out)) (elems (Found got)),
                          EntityResultType := FULL\<rparr>) (Batch out)\<rparr>),
      w\<lparr>Remote := rb,
        Calls := Calls w @
          [CallInvoker method_RunQuery (keys_only_request in' query),
           CallInvoker method_Lookup (lookup_request in' (GetEntityResults (Batch out)))]\<rparr>)"
proof -
  have "set_results 0 (elems (Found got)) (GetEntityResults (Batch out)) =
      Some (splice_by_position (GetEntityResults (Batch out)) (elems (Found got)))"
    using set_results_eq [of 0 "elems (Found got)" "GetEntityResults (Batch out)"] len by simp
  from rewrite_query_success [OF assms(1-6), of "\<lambda>result found. set_results 0 found result", OF this]
  show ?thesis by (simp add: QueryToLookupWithKeysOnly_def)
qed

text \<open>
  The later revision splices by key correspondence: when the keys-only results have
  distinct keys with distinct \<open>String()\<close> forms and every found entity has one of
  these keys, each found entity lands in the slot of its key, in whatever order the
  Lookup reply lists the entities.
\<close>

lemma query_rewrite_by_key:
  assumes "QueryType in' = StructuredQuery query" "Projection query = None"
      and "invoker (Remote w) method_RunQuery (keys_only_request in' query) reply =
             (None, RunQueryRep out, ra)"
      and "GetEntityResults (Batch out) \<noteq> []"
      and "invoker ra method_Lookup (lookup_request in' (GetEntityResults (Batch out)))
             (LookupRep \<lparr>Found = None, Missing = [], Deferred = []\<rparr>) =
             (None, LookupRep got, rb)"
      and len: "length (elems (Found got)) = length (GetEntityResults (Batch out))"
      and dist: "distinct (map kstr (result_keys (GetEntityResults (Batch out))))"
      and sub: "set (result_keys (elems (Found got))) \<subseteq> set (result_keys (GetEntityResults (Batch out)))"
  shows "QueryToLookupWithKeysOnly_keymap kstr invoker method_RunQuery (RunQueryReq in') reply w =
     (Return None, RunQueryReq in',
      RunQueryRep (out\<lparr>Batch :=
        map_option (\<lambda>b. b\<lparr>EntityResults :=
                            splice_by_key (GetEntityResults (Batch out)) (elems (Found got)),
                          EntityResultType := FULL\<rparr>) (Batch out)\<rparr>),
      w\<lparr>Remote := rb,
        Calls := Calls w @
          [CallInvoker method_RunQuery (keys_only_request in' query),
           CallInvoker method_Lookup (lookup_request in' (GetEntityResults (Batch out)))]\<rparr>)"
proof -
  have "set_results_keymap kstr
          (build_keymap kstr 0 (GetEntityResults (Batch out)) Map.empty)
          (elems (Found got)) (GetEntityResults (Batch out)) =
      Some (splice_by_key (GetEntityResults (Batch out)) (elems (Found got)))"
    using set_results_keymap_eq [OF dist sub refl] by (simp add: splice_by_key_def)
  from rewrite_query_success [OF assms(1-6),
      of "\<lambda>result found. set_results_keymap kstr (build_keymap kstr 0 result Map.empty) found result",
      OF this]
  show ?thesis by (simp add: QueryToLookupWithKeysOnly_keymap_def)
qed

section \<open>C1: order of the merged reply\<close>

text \<open>
  Against C1 as stated (cache hits ahead of the fetched entities): the cache holds
  \<open>v1\<close> for the first key and misses the second, the remote service finds \<open>v2\<close>.
  \<open>out.Found = append(out.Found, found...)\<close> appends the cache hits to what the
  remote service filled in, so the reply lists \<open>v2\<close> and then \<open>v1\<close>, which is not
  cache hits followed by remote finds.
\<close>

theorem lookup_merge_order_counterexample:
  "reply_of (UnaryClientInterceptor mock_Cacher codec replay method_Lookup
     (LookupReq (plainLookup [IDKey ''k'' 1, IDKey ''k'' 2])) (LookupRep emptyLookupResponse)
     (initial (mock_with [Some [1], None] None)
        [(None, LookupRep (emptyLookupResponse\<lparr>Found := Some [v2]\<rparr>))])) =
     LookupRep (emptyLookupResponse\<lparr>Found := Some [v2, v1]\<rparr>)
   \<and> cache_hits (Unmarshal codec) [Some [1], None] = [v1]
   \<and> LookupRep (emptyLookupResponse\<lparr>Found := Some [v2, v1]\<rparr>) \<noteq>
     LookupRep (emptyLookupResponse\<lparr>Found := Some ([v1] @ [v2])\<rparr>)"
  by (simp add: UnaryClientInterceptor_def lookup_case_def call_GetMulti_def
      call_invoker_def call_SetMulti_def Let_def reply_of_def
      plainLookup_def initial_def mock_with_def mock_Cacher_def replay_def
      emptyLookupResponse_def GetTransaction_def cache_hits_def codec_simps)

text \<open>
  C1, amended. A non-transactional Lookup with at least one cache miss (the cacher
  keeping its contract on the number of slots), whose remote call succeeds and leaves a
  found list that is not \<open>nil\<close> (so whenever it finds at least one entity), every found
  result that marshals carrying an entity: the call returns \<open>nil\<close>, the found list of
  the reply is the remote finds followed by the cache hits, the request has its original
  keys again, and the fetched entities that marshal are handed to \<open>SetMulti\<close>.
\<close>

theorem lookup_merge_order:
  assumes nontx: "GetTransaction (LookupReadOptions in') = None"
      and get: "GetMulti cacher (Cache w) (Keys in') = (cached, c)"
      and len: "length cached = length (Keys in') \<or> cached = []"
      and miss: "length (cache_hits (Unmarshal proto) cached) \<noteq> length (Keys in')"
      and inv: "invoker (Remote w) method_Lookup
                  (LookupReq (in'\<lparr>Keys := remote_keys (Unmarshal proto) (Keys in') cached\<rparr>))
                  (LookupRep out) = (None, LookupRep out', r)"
      and got: "Found out' = Some fs"
      and ent: "\<forall>v\<in>set fs. Marshal proto v \<noteq> None \<longrightarrow> Entity v \<noteq> None"
  shows "UnaryClientInterceptor cacher proto invoker method_Lookup (LookupReq in') (LookupRep out) w =
     (let saved = saved_entries (Marshal proto) fs in
      (Return None, LookupReq in',
       LookupRep (out'\<lparr>Found := Some (fs @ cache_hits (Unmarshal proto) cached)\<rparr>),
       w\<lparr>Cache := SetMulti cacher c (map fst saved) (map snd saved),
         Remote := r,
         Calls := Calls w @
           [CallGetMulti (Keys in'),
            CallInvoker method_Lookup
              (LookupReq (in'\<lparr>Keys := remote_keys (Unmarshal proto) (Keys in') cached\<rparr>)),
            CallSetMulti (map fst saved) (map snd saved)]\<rparr>))"
proof -
  note scan = scan_cached_contract [OF len, of "Unmarshal proto"]
  have save: "save_cache (Marshal proto) fs [] [] =
      Some (map fst (saved_entries (Marshal proto) fs),
            map snd (saved_entries (Marshal proto) fs))"
    using save_cache_eq [OF ent, of "[]" "[]"] by simp
  have inv': "invoker (Remote w) method_Lookup
       (LookupReq (in'\<lparr>Keys := if cached = [] then Keys in'
                                else cache_misses (Unmarshal proto) (Keys in') cached\<rparr>))
       (LookupRep out) = (None, LookupRep out', r)"
    using inv by (simp add: remote_keys_def)
  show ?thesis
    using nontx get scan miss inv' got save
    by (simp add: UnaryClientInterceptor_def lookup_case_def call_GetMulti_def
        call_invoker_def call_SetMulti_def Let_def remote_keys_def)
qed

text \<open>C1, amended, on the input of the counterexample.\<close>

theorem lookup_merge_order_witness:
  "UnaryClientInterceptor mock_Cacher codec replay method_Lookup
     (LookupReq (plainLookup [IDKey ''k'' 1, IDKey ''k'' 2])) (LookupRep emptyLookupResponse)
     (initial (mock_with [Some [1], None] None)
        [(None, LookupRep (emptyLookupResponse\<lparr>Found := Some [v2]\<rparr>))]) =
   (Return None, LookupReq (plainLookup [IDKey ''k'' 1, IDKey ''k'' 2]),
    LookupRep (emptyLookupResponse\<lparr>Found := Some [v2, v1]\<rparr>),
    \<lparr>Cache = (mock_with [Some [1], None] None)\<lparr>setKeys := [IDKey ''k'' 2]\<rparr>,
     Remote = [],
     Calls = [CallGetMulti [IDKey ''k'' 1, IDKey ''k'' 2],
              CallInvoker method_Lookup (LookupReq (plainLookup [IDKey ''k'' 2])),
              CallSetMulti [IDKey ''k'' 2] [[2]]]\<rparr>)"
  using lookup_merge_order [where in' = "plainLookup [IDKey ''k'' 1, IDKey ''k'' 2]"
      and cacher = mock_Cacher and proto = codec and invoker = replay
      and w = "initial (mock_with [Some [1], None] None)
                 [(None, LookupRep (emptyLookupResponse\<lparr>Found := Some [v2]\<rparr>))]"
      and cached = "[Some [1], None]" and c = "mock_with [Some [1], None] None"
      and out = emptyLookupResponse and out' = "emptyLookupResponse\<lparr>Found := Some [v2]\<rparr>"
      and fs = "[v2]" and r = "[]"]
  by (simp add: plainLookup_def initial_def mock_with_def mock_Cacher_def replay_def
      emptyLookupResponse_def GetTransaction_def cache_hits_def cache_misses_def
      remote_keys_def saved_entries_def codec_simps GetKey_def)

section \<open>C2: every key is served from the cache\<close>

text \<open>
  C2. A non-transactional Lookup for which the cacher returns one slot per key, each
  slot unmarshalling to an entity result (\<open>es\<close>, slot by slot): the only call made is
  \<open>GetMulti\<close>, the remote side is not touched, the call returns \<open>nil\<close> and the found list
  of the reply is \<open>es\<close>, in the order of the keys of the request.
\<close>

theorem lookup_all_cached:
  assumes nontx: "GetTransaction (LookupReadOptions in') = None"
      and get: "GetMulti cacher (Cache w) (Keys in') = (cached, c)"
      and len: "length cached = length (Keys in')"
      and hits: "list_all2 (\<lambda>v e. hit (Unmarshal proto) v = Some e) cached es"
  shows "UnaryClientInterceptor cacher proto invoker method_Lookup (LookupReq in') (LookupRep out) w =
     (Return None, LookupReq in', LookupRep (out\<lparr>Found := Some es\<rparr>),
      w\<lparr>Cache := c, Calls := Calls w @ [CallGetMulti (Keys in')]\<rparr>)"
proof -
  have scan: "scan_cached (Unmarshal proto) (Keys in') 0 cached [] [] =
      Some (es, cache_misses (Unmarshal proto) (Keys in') cached)"
    using scan_cached_contract [of cached "Keys in'" "Unmarshal proto"] len
      cache_hits_all [OF hits] by simp
  have "length es = length (Keys in')"
    using hits len by (simp add: list_all2_lengthD)
  then show ?thesis
    using nontx get scan
    by (simp add: UnaryClientInterceptor_def lookup_case_def call_GetMulti_def)
qed

text \<open>C2 on a request for two cached keys.\<close>

theorem lookup_all_cached_witness:
  "UnaryClientInterceptor mock_Cacher codec replay method_Lookup
     (LookupReq (plainLookup [IDKey ''k'' 1, IDKey ''k'' 2])) (LookupRep emptyLookupResponse)
     (initial (mock_with [Some [1], Some [2]] None) []) =
   (Return None, LookupReq (plainLookup [IDKey ''k'' 1, IDKey ''k'' 2]),
    LookupRep (emptyLookupResponse\<lparr>Found := Some [v1, v2]\<rparr>),
    \<lparr>Cache = mock_with [Some [1], Some [2]] None, Remote = [],
     Calls = [CallGetMulti [IDKey ''k'' 1, IDKey ''k'' 2]]\<rparr>)"
  using lookup_all_cached [where in' = "plainLookup [IDKey ''k'' 1, IDKey ''k'' 2]"
      and cacher = mock_Cacher and proto = codec and invoker = replay
      and w = "initial (mock_with [Some [1], Some [2]] None) []"
      and cached = "[Some [1], Some [2]]" and c = "mock_with [Some [1], Some [2]] None"
      and es = "[v1, v2]" and out = emptyLookupResponse]
  by (simp add: plainLookup_def initial_def mock_with_def mock_Cacher_def
      GetTransaction_def codec_simps)

section \<open>C3: invalidation after a successful commit\<close>

text \<open>
  C3. When the remote Commit succeeds (every Update and Upsert mutation carrying its
  entity), the keys of the Update, Upsert and Delete mutations are collected in mutation
  order, Insert contributing none. If the list is empty the call returns \<open>nil\<close> with no
  \<open>DeleteMulti\<close> call; otherwise \<open>DeleteMulti\<close> is called once with exactly that list
  and what it returns is the result of the call.
\<close>

theorem commit_invalidates:
  assumes "invoker (Remote w) method_Commit (CommitReq in') reply = (None, reply', r)"
      and "\<forall>m\<in>set (Mutations in'). m \<noteq> Update None \<and> m \<noteq> Upsert None"
  shows "UnaryClientInterceptor cacher proto invoker method_Commit (CommitReq in') reply w =
     (let keys = mutated_keys (Mutations in');
          w1 = w\<lparr>Remote := r, Calls := Calls w @ [CallInvoker method_Commit (CommitReq in')]\<rparr>
      in if keys = [] then (Return None, CommitReq in', reply', w1)
         else (case DeleteMulti cacher (Cache w) keys of
                 (e, c) \<Rightarrow> (Return e, CommitReq in', reply',
                            w1\<lparr>Cache := c, Calls := Calls w1 @ [CallDeleteMulti keys]\<rparr>)))"
  using assms mutation_keys_eq [of "Mutations in'" "[]"]
  by (simp add: UnaryClientInterceptor_def commit_case_def call_invoker_def
      call_DeleteMulti_def Let_def split: prod.splits)

text \<open>
  C3 on a commit of Update, Insert, Upsert and Delete whose cache deletion fails, and on a
  commit of a single Insert.
\<close>

theorem commit_invalidates_witness:
  "UnaryClientInterceptor mock_Cacher codec replay method_Commit
     (CommitReq (commitOf NON_TRANSACTIONAL None
        [Update (Entity v1), Insert (Entity v2), Upsert (Entity v2), Delete (IDKey ''k'' 3)]))
     (CommitRep \<lparr>IndexUpdates = 0\<rparr>)
     (initial (mock_with [] (Some (Error ''delete cache error'')))
        [(None, CommitRep \<lparr>IndexUpdates = 4\<rparr>)]) =
   (Return (Some (Error ''delete cache error'')),
    CommitReq (commitOf NON_TRANSACTIONAL None
        [Update (Entity v1), Insert (Entity v2), Upsert (Entity v2), Delete (IDKey ''k'' 3)]),
    CommitRep \<lparr>IndexUpdates = 4\<rparr>,
    \<lparr>Cache = (mock_with [] (Some (Error ''delete cache error'')))
               \<lparr>delKeys := [IDKey ''k'' 1, IDKey ''k'' 2, IDKey ''k'' 3]\<rparr>,
     Remote = [],
     Calls = [CallInvoker method_Commit (CommitReq (commitOf NON_TRANSACTIONAL None
                [Update (Entity v1), Insert (Entity v2), Upsert (Entity v2),
                 Delete (IDKey ''k'' 3)])),
              CallDeleteMulti [IDKey ''k'' 1, IDKey ''k'' 2, IDKey ''k'' 3]]\<rparr>)
   \<and> UnaryClientInterceptor mock_Cacher codec replay method_Commit
     (CommitReq (commitOf NON_TRANSACTIONAL None [Insert (Entity v1)]))
     (CommitRep \<lparr>IndexUpdates = 0\<rparr>)
     (initial (mock_with [] (Some (Error ''delete cache error'')))
        [(None, CommitRep \<lparr>IndexUpdates = 1\<rparr>)]) =
   (Return None,
    CommitReq (commitOf NON_TRANSACTIONAL None [Insert (Entity v1)]),
    CommitRep \<lparr>IndexUpdates = 1\<rparr>,
    \<lparr>Cache = mock_with [] (Some (Error ''delete cache error'')),
     Remote = [],
     Calls = [CallInvoker method_Commit
                (CommitReq (commitOf NON_TRANSACTIONAL None [Insert (Entity v1)]))]\<rparr>)"
  using commit_invalidates [where invoker = replay and cacher = mock_Cacher and proto = codec
      and in' = "commitOf NON_TRANSACTIONAL None
        [Update (Entity v1), Insert (Entity v2), Upsert (Entity v2), Delete (IDKey ''k'' 3)]"
      and reply = "CommitRep \<lparr>IndexUpdates = 0\<rparr>"
      and w = "initial (mock_with [] (Some (Error ''delete cache error'')))
        [(None, CommitRep \<lparr>IndexUpdates = 4\<rparr>)]"
      and reply' = "CommitRep \<lparr>IndexUpdates = 4\<rparr>" and r = "[]"]
    commit_invalidates [where invoker = replay and cacher = mock_Cacher and proto = codec
      and in' = "commitOf NON_TRANSACTIONAL None [Insert (Entity v1)]"
      and reply = "CommitRep \<lparr>IndexUpdates = 0\<rparr>"
      and w = "initial (mock_with [] (Some (Error ''delete cache error'')))
        [(None, CommitRep \<lparr>IndexUpdates = 1\<rparr>)]"
      and reply' = "CommitRep \<lparr>IndexUpdates = 1\<rparr>" and r = "[]"]
  by (simp add: commitOf_def initial_def mock_with_def mock_Cacher_def replay_def
      mutated_keys_def codec_simps Let_def)

section \<open>C4: a failed commit leaves the cache alone\<close>

text \<open>
  C4. When the remote Commit returns an error, the call returns that error, the only
  call made is the one to the invoker, and the cache state is unchanged: \<open>DeleteMulti\<close>
  is not called.
\<close>

theorem commit_failure_no_invalidation:
  assumes "invoker (Remote w) method_Commit req reply = (Some e, reply', r)"
  shows "UnaryClientInterceptor cacher proto invoker method_Commit req reply w =
     (Return (Some e), req, reply',
      w\<lparr>Remote := r, Calls := Calls w @ [CallInvoker method_Commit req]\<rparr>)"
  using assms
  by (simp add: UnaryClientInterceptor_def commit_case_def call_invoker_def)

text \<open>C4 on a commit the remote side aborts.\<close>

theorem commit_failure_no_invalidation_witness:
  "UnaryClientInterceptor mock_Cacher codec replay method_Commit
     (CommitReq (commitOf NON_TRANSACTIONAL None [Update (Entity v1)]))
     (CommitRep \<lparr>IndexUpdates = 0\<rparr>)
     (initial (mock_with [Some [1]] None)
        [(Some (Error ''aborted''), CommitRep \<lparr>IndexUpdates = 0\<rparr>)]) =
   (Return (Some (Error ''aborted'')),
    CommitReq (commitOf NON_TRANSACTIONAL None [Update (Entity v1)]),
    CommitRep \<lparr>IndexUpdates = 0\<rparr>,
    \<lparr>Cache = mock_with [Some [1]] None, Remote = [],
     Calls = [CallInvoker method_Commit
                (CommitReq (commitOf NON_TRANSACTIONAL None [Update (Entity v1)]))]\<rparr>)"
  using commit_failure_no_invalidation [where invoker = replay and cacher = mock_Cacher
      and proto = codec
      and req = "CommitReq (commitOf NON_TRANSACTIONAL None [Update (Entity v1)])"
      and reply = "CommitRep \<lparr>IndexUpdates = 0\<rparr>"
      and w = "initial (mock_with [Some [1]] None)
        [(Some (Error ''aborted''), CommitRep \<lparr>IndexUpdates = 0\<rparr>)]"
      and e = "Error ''aborted''"
      and reply' = "CommitRep \<lparr>IndexUpdates = 0\<rparr>" and r = "[]"]
  by (simp add: initial_def replay_def)

section \<open>C5: a Lookup in a transaction bypasses the cache\<close>

text \<open>
  C5. A Lookup whose read options carry a transaction identifier (the test of the code
  is \<open>in.GetReadOptions().GetTransaction() != nil\<close>) is handed to the invoker with the
  request and the reply as they are; the result is the invoker's, the cache state is
  unchanged and the only call made is the one to the invoker: neither \<open>GetMulti\<close> nor
  \<open>SetMulti\<close> is called.
\<close>

theorem lookup_in_transaction_forwards:
  assumes "GetTransaction (LookupReadOptions in') \<noteq> None"
  shows "UnaryClientInterceptor cacher proto invoker method_Lookup (LookupReq in') reply w =
     (case invoker (Remote w) method_Lookup (LookupReq in') reply of
        (e, reply', r) \<Rightarrow>
          (Return e, LookupReq in', reply',
           w\<lparr>Remote := r, Calls := Calls w @ [CallInvoker method_Lookup (LookupReq in')]\<rparr>))"
  using assms
  by (simp add: UnaryClientInterceptor_def lookup_case_def forward_def call_invoker_def
      split: prod.splits)

text \<open>C5 on a transactional Lookup of a key the cache holds.\<close>

theorem lookup_in_transaction_forwards_witness:
  "UnaryClientInterceptor mock_Cacher codec replay method_Lookup
     (LookupReq (txLookup [7] [IDKey ''k'' 1])) (LookupRep emptyLookupResponse)
     (initial (mock_with [Some [1]] None)
        [(None, LookupRep (emptyLookupResponse\<lparr>Found := Some [v1]\<rparr>))]) =
   (Return None, LookupReq (txLookup [7] [IDKey ''k'' 1]),
    LookupRep (emptyLookupResponse\<lparr>Found := Some [v1]\<rparr>),
    \<lparr>Cache = mock_with [Some [1]] None, Remote = [],
     Calls = [CallInvoker method_Lookup (LookupReq (txLookup [7] [IDKey ''k'' 1]))]\<rparr>)"
  using lookup_in_transaction_forwards [where in' = "txLookup [7] [IDKey ''k'' 1]"
      and cacher = mock_Cacher and proto = codec and invoker = replay
      and reply = "LookupRep emptyLookupResponse"
      and w = "initial (mock_with [Some [1]] None)
        [(None, LookupRep (emptyLookupResponse\<lparr>Found := Some [v1]\<rparr>))]"]
  by (simp add: txLookup_def GetTransaction_def initial_def replay_def)

section \<open>C6: the key string as cache index\<close>

text \<open>
  C6 fails on the key string of cache/memory and cache/aememcache. The builder writes the
  kind and the decimal id one after the other with nothing in between, so the key of kind
  \<open>k\<close> with id 12 and the key of kind \<open>k1\<close> with id 2, which are not the same key,
  both get \<open>[default]k12\<close> and share one cache slot. The key string of cache/redis
  joins the pieces with a slash and keeps the two keys apart.
\<close>

theorem keystr_kind_id_collision:
  "keystr quote_plain (IDKey ''k'' 12) = ''[default]k12''
   \<and> keystr quote_plain (IDKey ''k1'' 2) = ''[default]k12''
   \<and> \<not> same_key (IDKey ''k'' 12) (IDKey ''k1'' 2)
   \<and> redis_keystr quote_plain (IDKey ''k'' 12) = ''[default]/k/12''
   \<and> redis_keystr quote_plain (IDKey ''k1'' 2) = ''[default]/k1/2''"
  by (simp add: keystr_def redis_keystr_def nsstr_def GetNamespaceId_def IDKey_def
      same_key_def FormatInt_def decimal.simps digit_def)

section \<open>C7: the key list of the request after the call\<close>

text \<open>
  C7 fails when the remote call fails. The cache holds the first of two keys, the remote
  Lookup returns an error: \<open>return err\<close> comes before \<open>in.Keys = keys\<close>, so the
  request the caller gets back lists the second key only.
\<close>

theorem lookup_failure_keeps_reduced_keys:
  "UnaryClientInterceptor mock_Cacher codec replay method_Lookup
     (LookupReq (plainLookup [IDKey ''k'' 1, IDKey ''k'' 2])) (LookupRep emptyLookupResponse)
     (initial (mock_with [Some [1], None] None)
        [(Some (Error ''unavailable''), LookupRep emptyLookupResponse)]) =
   (Return (Some (Error ''unavailable'')),
    LookupReq (plainLookup [IDKey ''k'' 2]),
    LookupRep emptyLookupResponse,
    \<lparr>Cache = mock_with [Some [1], None] None, Remote = [],
     Calls = [CallGetMulti [IDKey ''k'' 1, IDKey ''k'' 2],
              CallInvoker method_Lookup (LookupReq (plainLookup [IDKey ''k'' 2]))]\<rparr>)"
  by (simp add: UnaryClientInterceptor_def lookup_case_def call_GetMulti_def
      call_invoker_def Let_def
      plainLookup_def initial_def mock_with_def mock_Cacher_def replay_def
      emptyLookupResponse_def GetTransaction_def codec_simps)

text \<open>In general: when the remote Lookup fails, the request is left with the keys that
  were sent.\<close>

lemma lookup_remote_failure:
  assumes nontx: "GetTransaction (LookupReadOptions in') = None"
      and get: "GetMulti cacher (Cache w) (Keys in') = (cached, c)"
      and len: "length cached = length (Keys in') \<or> cached = []"
      and miss: "length (cache_hits (Unmarshal proto) cached) \<noteq> length (Keys in')"
      and inv: "invoker (Remote w) method_Lookup
                  (LookupReq (in'\<lparr>Keys := remote_keys (Unmarshal proto) (Keys in') cached\<rparr>))
                  (LookupRep out) = (Some e, reply', r)"
  shows "UnaryClientInterceptor cacher proto invoker method_Lookup (LookupReq in') (LookupRep out) w =
     (Return (Some e),
      LookupReq (in'\<lparr>Keys := remote_keys (Unmarshal proto) (Keys in') cached\<rparr>),
      reply',
      w\<lparr>Cache := c, Remote := r,
        Calls := Calls w @
          [CallGetMulti (Keys in'),
           CallInvoker method_Lookup
             (LookupReq (in'\<lparr>Keys := remote_keys (Unmarshal proto) (Keys in') cached\<rparr>))]\<rparr>)"
proof -
  note scan = scan_cached_contract [OF len, of "Unmarshal proto"]
  have inv': "invoker (Remote w) method_Lookup
       (LookupReq (in'\<lparr>Keys := if cached = [] then Keys in'
                                else cache_misses (Unmarshal proto) (Keys in') cached\<rparr>))
       (LookupRep out) = (Some e, reply', r)"
    using inv by (simp add: remote_keys_def)
  show ?thesis
    using nontx get scan miss inv'
    by (simp add: UnaryClientInterceptor_def lookup_case_def call_GetMulti_def
        call_invoker_def Let_def remote_keys_def)
qed

section \<open>C8: how the found entities are put into the batch\<close>

text \<open>
  C8 fails on transform/transform.go. The keys-only query returns the keys of \<open>v1\<close>
  and \<open>v2\<close> in this order and the Lookup reply lists \<open>v2\<close> before \<open>v1\<close>:
  the loop \<open>out.Batch.EntityResults[i].Entity = v.Entity\<close> puts \<open>v2\<close> into the slot
  of the key of \<open>v1\<close> and \<open>v1\<close> into the slot of the key of \<open>v2\<close>, and marks
  the batch as full. Splicing by key correspondence gives \<open>v1\<close>, \<open>v2\<close>, and so does
  the later revision on the same input (with the key string of the memory backend in the
  place of \<open>String()\<close>).
\<close>

theorem query_rewrite_splices_by_position:
  "reply_of (QueryToLookupWithKeysOnly replay method_RunQuery (RunQueryReq queryAll)
     (RunQueryRep \<lparr>Batch = None\<rparr>)
     (initial () [(None, RunQueryRep (keysOnlyBatch [IDKey ''k'' 1, IDKey ''k'' 2])),
                  (None, LookupRep (emptyLookupResponse\<lparr>Found := Some [v2, v1]\<rparr>))])) =
     RunQueryRep \<lparr>Batch = Some \<lparr>EntityResultType = FULL, EntityResults = [v2, v1]\<rparr>\<rparr>
   \<and> reply_of (QueryToLookupWithKeysOnly_keymap (keystr quote_plain) replay method_RunQuery
     (RunQueryReq queryAll) (RunQueryRep \<lparr>Batch = None\<rparr>)
     (initial () [(None, RunQueryRep (keysOnlyBatch [IDKey ''k'' 1, IDKey ''k'' 2])),
                  (None, LookupRep (emptyLookupResponse\<lparr>Found := Some [v2, v1]\<rparr>))])) =
     RunQueryRep \<lparr>Batch = Some \<lparr>EntityResultType = FULL, EntityResults = [v1, v2]\<rparr>\<rparr>
   \<and> splice_by_key (map key_only [IDKey ''k'' 1, IDKey ''k'' 2]) [v2, v1] = [v1, v2]
   \<and> [v2, v1] \<noteq> [v1, v2]"
  by (simp add: QueryToLookupWithKeysOnly_def QueryToLookupWithKeysOnly_keymap_def
      rewrite_query_def call_invoker_def Let_def
      reply_of_def queryAll_def initial_def replay_def keysOnlyBatch_def emptyLookupResponse_def
      GetEntityResults_def key_only_def GetKey_def splice_by_key_def put_by_key_def
      v1_def v2_def entity_result_def example_keystr IDKey_eq)

section \<open>C9: a Lookup reply of another length\<close>

text \<open>
  C9. When the keys-only query succeeds with at least one result and the Lookup succeeds
  with a number of found entities other than the number of keys, the call returns the
  error \<open>could not lookup entities with same length as keys\<close>; the reply holds the
  keys-only batch as the remote side returned it, nothing spliced in, and the request
  has no projection. This holds in both revisions.
\<close>

theorem query_rewrite_length_mismatch:
  assumes "QueryType in' = StructuredQuery query" "Projection query = None"
      and "invoker (Remote w) method_RunQuery (keys_only_request in' query) reply =
             (None, RunQueryRep out, ra)"
      and "GetEntityResults (Batch out) \<noteq> []"
      and "invoker ra method_Lookup (lookup_request in' (GetEntityResults (Batch out)))
             (LookupRep \<lparr>Found = None, Missing = [], Deferred = []\<rparr>) =
             (None, LookupRep got, rb)"
      and "length (elems (Found got)) \<noteq> length (GetEntityResults (Batch out))"
  shows "QueryToLookupWithKeysOnly invoker method_RunQuery (RunQueryReq in') reply w =
     (Return (Some errLookupLength), RunQueryReq in', RunQueryRep out,
      w\<lparr>Remote := rb,
        Calls := Calls w @
          [CallInvoker method_RunQuery (keys_only_request in' query),
           CallInvoker method_Lookup (lookup_request in' (GetEntityResults (Batch out)))]\<rparr>)
     \<and> QueryToLookupWithKeysOnly_keymap kstr invoker method_RunQuery (RunQueryReq in') reply w =
     (Return (Some errLookupLength), RunQueryReq in', RunQueryRep out,
      w\<lparr>Remote := rb,
        Calls := Calls w @
          [CallInvoker method_RunQuery (keys_only_request in' query),
           CallInvoker method_Lookup (lookup_request in' (GetEntityResults (Batch out)))]\<rparr>)"
  unfolding QueryToLookupWithKeysOnly_def QueryToLookupWithKeysOnly_keymap_def
  using rewrite_query_mismatch [OF assms] by simp

text \<open>C9 on a query that returns two keys of which the Lookup finds one.\<close>

theorem query_rewrite_length_mismatch_witness:
  "QueryToLookupWithKeysOnly replay method_RunQuery (RunQueryReq queryAll)
     (RunQueryRep \<lparr>Batch = None\<rparr>)
     (initial () [(None, RunQueryRep (keysOnlyBatch [IDKey ''k'' 1, IDKey ''k'' 2])),
                  (None, LookupRep (emptyLookupResponse\<lparr>Found := Some [v1]\<rparr>))]) =
   (Return (Some errLookupLength), RunQueryReq queryAll,
    RunQueryRep (keysOnlyBatch [IDKey ''k'' 1, IDKey ''k'' 2]),
    \<lparr>Cache = (), Remote = [],
     Calls = [CallInvoker method_RunQuery
                (RunQueryReq (queryAll\<lparr>QueryType := StructuredQuery
                   \<lparr>Projection = Some [''__key__''], QueryKind = [''k''], Limit = None, Offset = 0\<rparr>\<rparr>)),
              CallInvoker method_Lookup
                (LookupReq (plainLookup [IDKey ''k'' 1, IDKey ''k'' 2]))]\<rparr>)
   \<and> QueryToLookupWithKeysOnly_keymap (keystr quote_plain) replay method_RunQuery
     (RunQueryReq queryAll) (RunQueryRep \<lparr>Batch = None\<rparr>)
     (initial () [(None, RunQueryRep (keysOnlyBatch [IDKey ''k'' 1, IDKey ''k'' 2])),
                  (None, LookupRep (emptyLookupResponse\<lparr>Found := Some [v1]\<rparr>))]) =
   (Return (Some errLookupLength), RunQueryReq queryAll,
    RunQueryRep (keysOnlyBatch [IDKey ''k'' 1, IDKey ''k'' 2]),
    \<lparr>Cache = (), Remote = [],
     Calls = [CallInvoker method_RunQuery
                (RunQueryReq (queryAll\<lparr>QueryType := StructuredQuery
                   \<lparr>Projection = Some [''__key__''], QueryKind = [''k''], Limit = None, Offset = 0\<rparr>\<rparr>)),
              CallInvoker method_Lookup
                (LookupReq (plainLookup [IDKey ''k'' 1, IDKey ''k'' 2]))]\<rparr>)"
  using query_rewrite_length_mismatch [where invoker = replay and in' = queryAll
      and query = "\<lparr>Projection = None, QueryKind = [''k''], Limit = None, Offset = 0\<rparr>"
      and reply = "RunQueryRep \<lparr>Batch = None\<rparr>"
      and w = "initial () [(None, RunQueryRep (keysOnlyBatch [IDKey ''k'' 1, IDKey ''k'' 2])),
                  (None, LookupRep (emptyLookupResponse\<lparr>Found := Some [v1]\<rparr>))]"
      and out = "keysOnlyBatch [IDKey ''k'' 1, IDKey ''k'' 2]"
      and ra = "[(None, LookupRep (emptyLookupResponse\<lparr>Found := Some [v1]\<rparr>))]"
      and got = "emptyLookupResponse\<lparr>Found := Some [v1]\<rparr>" and rb = "[]"
      and kstr = "keystr quote_plain"]
  by (simp add: queryAll_def initial_def replay_def keysOnlyBatch_def emptyLookupResponse_def
      keys_only_request_def lookup_request_def GetEntityResults_def key_only_def GetKey_def
      plainLookup_def)

section \<open>C10: invalidation does not look at the transaction\<close>

text \<open>The \<open>DeleteMulti\<close> calls of a Commit whose remote call succeeds, and the cache
  state it leaves, are determined by the mutations.\<close>

lemma commit_delete_calls:
  assumes "fst (invoker (Remote w) method_Commit (CommitReq in') reply) = None"
  shows "delete_calls (Calls (world_of
           (UnaryClientInterceptor cacher proto invoker method_Commit (CommitReq in') reply w))) =
         delete_calls (Calls w) @
           (case mutation_keys (Mutations in') [] of
              None \<Rightarrow> []
            | Some keys \<Rightarrow> if keys = [] then [] else [keys])"
  using assms
  by (auto simp: UnaryClientInterceptor_def commit_case_def call_invoker_def
      call_DeleteMulti_def world_of_def delete_calls_def split: prod.splits option.splits)

lemma commit_cache_state:
  assumes "fst (invoker (Remote w) method_Commit (CommitReq in') reply) = None"
  shows "Cache (world_of
           (UnaryClientInterceptor cacher proto invoker method_Commit (CommitReq in') reply w)) =
         (case mutation_keys (Mutations in') [] of
            None \<Rightarrow> Cache w
          | Some keys \<Rightarrow>
              if keys = [] then Cache w else snd (DeleteMulti cacher (Cache w) keys))"
  using assms
  by (auto simp: UnaryClientInterceptor_def commit_case_def call_invoker_def
      call_DeleteMulti_def world_of_def split: prod.splits option.splits)

text \<open>
  C10. Take two Commit requests with the same mutations (every Update and Upsert
  carrying its entity), whatever their mode and transaction selector, whose remote calls
  both succeed. Each of the two calls makes the same \<open>DeleteMulti\<close> call, the one with
  the keys of the Update, Upsert and Delete mutations (no call when there is no such
  key), and leaves the cache in the state that call returns: a transactional commit
  invalidates as a non-transactional one does.
\<close>

theorem commit_invalidation_ignores_transaction:
  assumes "Mutations ina = Mutations inb"
      and "\<forall>m\<in>set (Mutations ina). m \<noteq> Update None \<and> m \<noteq> Upsert None"
      and "fst (invoker (Remote w) method_Commit (CommitReq ina) replya) = None"
      and "fst (invoker (Remote w) method_Commit (CommitReq inb) replyb) = None"
  shows "delete_calls (Calls (world_of
           (UnaryClientInterceptor cacher proto invoker method_Commit (CommitReq ina) replya w))) =
         delete_calls (Calls w) @
           (if mutated_keys (Mutations ina) = [] then [] else [mutated_keys (Mutations ina)])
       \<and> delete_calls (Calls (world_of
           (UnaryClientInterceptor cacher proto invoker method_Commit (CommitReq inb) replyb w))) =
         delete_calls (Calls w) @
           (if mutated_keys (Mutations ina) = [] then [] else [mutated_keys (Mutations ina)])
       \<and> Cache (world_of
           (UnaryClientInterceptor cacher proto invoker method_Commit (CommitReq ina) replya w)) =
         (if mutated_keys (Mutations ina) = [] then Cache w
          else snd (DeleteMulti cacher (Cache w) (mutated_keys (Mutations ina))))
       \<and> Cache (world_of
           (UnaryClientInterceptor cacher proto invoker method_Commit (CommitReq inb) replyb w)) =
         (if mutated_keys (Mutations ina) = [] then Cache w
          else snd (DeleteMulti cacher (Cache w) (mutated_keys (Mutations ina))))"
proof -
  have keys: "mutation_keys (Mutations ina) [] = Some (mutated_keys (Mutations ina))"
    using mutation_keys_eq [OF assms(2), of "[]"] by simp
  then have keys': "mutation_keys (Mutations inb) [] = Some (mutated_keys (Mutations ina))"
    using assms(1) by simp
  show ?thesis
    using assms(3,4)
      commit_delete_calls [where invoker = invoker and w = w and in' = ina and reply = replya
        and cacher = cacher and proto = proto]
      commit_delete_calls [where invoker = invoker and w = w and in' = inb and reply = replyb
        and cacher = cacher and proto = proto]
      commit_cache_state [where invoker = invoker and w = w and in' = ina and reply = replya
        and cacher = cacher and proto = proto]
      commit_cache_state [where invoker = invoker and w = w and in' = inb and reply = replyb
        and cacher = cacher and proto = proto]
    by (simp add: keys keys')
qed

text \<open>
  C10 on a non-transactional and a transactional commit of one Update: each makes the
  \<open>DeleteMulti\<close> call for the key of the updated entity, and the cacher has recorded
  the deletion of that key.
\<close>

theorem commit_invalidation_ignores_transaction_witness:
  "delete_calls (Calls (world_of
     (UnaryClientInterceptor mock_Cacher codec replay method_Commit
        (CommitReq (commitOf NON_TRANSACTIONAL None [Update (Entity v1)]))
        (CommitRep \<lparr>IndexUpdates = 0\<rparr>)
        (initial (mock_with [] None) [(None, CommitRep \<lparr>IndexUpdates = 1\<rparr>)])))) =
     [[IDKey ''k'' 1]]
   \<and> delete_calls (Calls (world_of
     (UnaryClientInterceptor mock_Cacher codec replay method_Commit
        (CommitReq (commitOf TRANSACTIONAL (Some [7]) [Update (Entity v1)]))
        (CommitRep \<lparr>IndexUpdates = 0\<rparr>)
        (initial (mock_with [] None) [(None, CommitRep \<lparr>IndexUpdates = 1\<rparr>)])))) =
     [[IDKey ''k'' 1]]
   \<and> Cache (world_of
     (UnaryClientInterceptor mock_Cacher codec replay method_Commit
        (CommitReq (commitOf NON_TRANSACTIONAL None [Update (Entity v1)]))
        (CommitRep \<lparr>IndexUpdates = 0\<rparr>)
        (initial (mock_with [] None) [(None, CommitRep \<lparr>IndexUpdates = 1\<rparr>)]))) =
     (mock_with [] None)\<lparr>delKeys := [IDKey ''k'' 1]\<rparr>
   \<and> Cache (world_of
     (UnaryClientInterceptor mock_Cacher codec replay method_Commit
        (CommitReq (commitOf TRANSACTIONAL (Some [7]) [Update (Entity v1)]))
        (CommitRep \<lparr>IndexUpdates = 0\<rparr>)
        (initial (mock_with [] None) [(None, CommitRep \<lparr>IndexUpdates = 1\<rparr>)]))) =
     (mock_with [] None)\<lparr>delKeys := [IDKey ''k'' 1]\<rparr>"
  using commit_invalidation_ignores_transaction [where invoker = replay
      and cacher = mock_Cacher and proto = codec
      and ina = "commitOf NON_TRANSACTIONAL None [Update (Entity v1)]"
      and inb = "commitOf TRANSACTIONAL (Some [7]) [Update (Entity v1)]"
      and replya = "CommitRep \<lparr>IndexUpdates = 0\<rparr>"
      and replyb = "CommitRep \<lparr>IndexUpdates = 0\<rparr>"
      and w = "initial (mock_with [] None) [(None, CommitRep \<lparr>IndexUpdates = 1\<rparr>)]"]
  by (simp add: commitOf_def initial_def replay_def mock_with_def mock_Cacher_def
      mutated_keys_def delete_calls_def codec_simps)

end
